theory Spec2Isabelle
  imports Complex_Main
begin

section \<open>Data model\<close>

text \<open>
  The embedding follows \<^verbatim>\<open>src/components/ParticleNetwork.tsx\<close>. JavaScript numbers
  are modelled by the reals: arithmetic is exact, there is no rounding, no NaN, no infinity
  and no signed zero. Array indices and canvas dimensions are natural numbers.

  Field names carry a prefix, since a record field is a global constant: the particle
  fields \<open>x, y, vx, vy, radius, color, originalX, originalY\<close> are \<open>p_x\<close> ... \<open>p_originalY\<close>,
  the connection fields \<open>from, to, distance\<close> are \<open>c_from, c_to, c_distance\<close>, and the
  fields \<open>x, y, moved\<close> of the pointer record are \<open>m_x, m_y, m_moved\<close>.
\<close>

text \<open>
  A CSS colour string, kept as the template it was built from together with the numbers
  interpolated into it: \<^verbatim>\<open>'black'\<close>, \<^verbatim>\<open>`hsla(${h}, ${s}%, ${l}%, 0.8)`\<close> and
  \<^verbatim>\<open>`rgba(255, 255, 255, ${a})`\<close>.
\<close>

datatype css_color =
    Named string
  | Hsla real real real real
  | Rgba real real real real

record particle =
  p_x :: real
  p_y :: real
  p_vx :: real
  p_vy :: real
  p_radius :: real
  p_color :: css_color
  p_originalX :: real
  p_originalY :: real

record connection =
  c_from :: nat
  c_to :: nat
  c_distance :: real

record mouse =
  m_x :: real
  m_y :: real
  m_moved :: bool

text \<open>
  The canvas element: its \<open>width\<close> and \<open>height\<close> attributes, and whether
  \<^verbatim>\<open>getContext('2d')\<close> yields a context (it may return \<^verbatim>\<open>null\<close>).
\<close>

record canvas =
  cv_width :: nat
  cv_height :: nat
  cv_context2d :: bool

text \<open>
  The mutable references of the component: \<open>canvasRef\<close> (\<open>None\<close> while no canvas is
  attached), \<open>particles\<close>, \<open>connections\<close>, \<open>animationFrameRef\<close> (\<open>None\<close> for
  \<^verbatim>\<open>undefined\<close>) and \<open>mouse\<close>.
\<close>

record sim =
  canvasRef :: "canvas option"
  particles :: "particle list"
  connections :: "connection list"
  animationFrameRef :: "nat option"
  mouse :: mouse

section \<open>The connection-graph builder\<close>

text \<open>
  Lines 39--41 of \<open>updateConnections\<close>: the distance between the particles at indices
  \<open>i\<close> and \<open>j\<close>. Both indices are in range wherever the loops call it.
\<close>

definition pairDistance :: "particle list \<Rightarrow> nat \<Rightarrow> nat \<Rightarrow> real" where
  "pairDistance ps i j =
     (let dx = p_x (ps ! i) - p_x (ps ! j);
          dy = p_y (ps ! i) - p_y (ps ! j)
      in sqrt (dx * dx + dy * dy))"

text \<open>
  The inner loop \<^verbatim>\<open>for (let j = i + 1; j < particles.current.length; j++)\<close>, started
  at any \<open>j\<close>, with the array \<open>newConnections\<close> built so far.
\<close>

function innerLoop ::
  "particle list \<Rightarrow> nat \<Rightarrow> nat \<Rightarrow> connection list \<Rightarrow> connection list" where
  "innerLoop ps i j newConnections =
     (if j < length ps then
        (let distance = pairDistance ps i j
         in innerLoop ps i (j + 1)
              (if distance < 150
               then newConnections @ [\<lparr>c_from = i, c_to = j, c_distance = distance\<rparr>]
               else newConnections))
      else newConnections)"
  by pat_completeness auto
termination
  by (relation "measure (\<lambda>(ps, i, j, acc). length ps - j)") auto

declare innerLoop.simps [simp del]

text \<open>The outer loop \<^verbatim>\<open>for (let i = 0; i < particles.current.length; i++)\<close>.\<close>

function outerLoop :: "particle list \<Rightarrow> nat \<Rightarrow> connection list \<Rightarrow> connection list" where
  "outerLoop ps i newConnections =
     (if i < length ps then outerLoop ps (i + 1) (innerLoop ps i (i + 1) newConnections)
      else newConnections)"
  by pat_completeness auto
termination
  by (relation "measure (\<lambda>(ps, i, acc). length ps - i)") auto

declare outerLoop.simps [simp del]

text \<open>
  \<open>updateConnections\<close>: scan the current particles from an empty array and store the
  result in \<open>connections\<close>.
\<close>

definition updateConnections :: "sim \<Rightarrow> sim" where
  "updateConnections s = s\<lparr>connections := outerLoop (particles s) 0 []\<rparr>"

section \<open>The simulation step\<close>

text \<open>
  Errors the draw pass can raise: reading \<open>.x\<close> of \<^verbatim>\<open>undefined\<close> (a connection whose
  index is not in the particle array) is a \<open>TypeError\<close>; \<^verbatim>\<open>ctx.arc\<close> with a negative
  radius raises \<open>IndexSizeError\<close>.
\<close>

datatype error = TypeError | IndexSizeError

text \<open>The calls made on the 2D context, in the order they are made.\<close>

datatype draw_cmd =
    SetFillStyle css_color
  | FillRect real real real real
  | ClearRect real real real real
  | SetLineWidth real
  | BeginPath
  | MoveTo real real
  | LineTo real real
  | SetStrokeStyle css_color
  | Stroke
  | Arc real real real real real
  | Fill

text \<open>
  How a callback ends: by returning without a request for a frame (the two early
  \<^verbatim>\<open>return\<close>s of \<open>animate\<close>, and the pointer handler), by an exception, or, for
  \<open>animate\<close>, by running to its last line, which requests the next frame.
\<close>

datatype outcome = Returned | Threw error | Rescheduled

record step_result =
  r_state :: sim
  r_drawn :: "draw_cmd list"
  r_outcome :: outcome

text \<open>
  What the environment hands to one invocation of \<open>animate\<close>: the value of its call of
  \<^verbatim>\<open>Math.random()\<close> and the handle \<^verbatim>\<open>requestAnimationFrame\<close> returns.
\<close>

record frame_env =
  rand :: real
  handle :: nat

text \<open>\<^verbatim>\<open>Math.atan2(y, x)\<close> on the reals; with both arguments zero it is \<open>0\<close>.\<close>

definition atan2 :: "real \<Rightarrow> real \<Rightarrow> real" where
  "atan2 y x =
     (if 0 < x then arctan (y / x)
      else if x < 0 \<and> 0 \<le> y then arctan (y / x) + pi
      else if x < 0 \<and> y < 0 then arctan (y / x) - pi
      else if 0 < y then pi / 2
      else if y < 0 then - (pi / 2)
      else 0)"

text \<open>Lines 61--62: advance the position by the velocity.\<close>

definition advance :: "particle \<Rightarrow> particle" where
  "advance p = (let p1 = p\<lparr>p_x := p_x p + p_vx p\<rparr> in p1\<lparr>p_y := p_y p1 + p_vy p1\<rparr>)"

text \<open>Lines 64--65: boundary reflection, tested on the position as it is now.\<close>

definition reflect :: "canvas \<Rightarrow> particle \<Rightarrow> particle" where
  "reflect canvas p =
     (let p1 = (if p_x p < 0 \<or> p_x p > real (cv_width canvas)
                then p\<lparr>p_vx := p_vx p * (- 1)\<rparr> else p)
      in if p_y p1 < 0 \<or> p_y p1 > real (cv_height canvas)
         then p1\<lparr>p_vy := p_vy p1 * (- 1)\<rparr> else p1)"

text \<open>Lines 67--92: attraction towards the pointer, or the return to the origin.\<close>

definition magnetism :: "mouse \<Rightarrow> particle \<Rightarrow> particle" where
  "magnetism m p =
     (if m_moved m then
        (let dx = m_x m - p_x p;
             dy = m_y m - p_y p;
             distance = sqrt (dx * dx + dy * dy);
             magneticRadius = (200 :: real)
         in if distance < magneticRadius then
              (let force = 0.9 * (1 - distance / magneticRadius);
                   angle = atan2 dy dx;
                   p1 = p\<lparr>p_vx := p_vx p + cos angle * force * 0.2\<rparr>;
                   p2 = p1\<lparr>p_vy := p_vy p1 + sin angle * force * 0.2\<rparr>;
                   speed = sqrt ((p_vx p2)\<^sup>2 + (p_vy p2)\<^sup>2);
                   maxSpeed = (3 :: real)
               in if speed > maxSpeed then
                    (let p3 = p2\<lparr>p_vx := p_vx p2 / speed * maxSpeed\<rparr>
                     in p3\<lparr>p_vy := p_vy p3 / speed * maxSpeed\<rparr>)
                  else p2)
            else
              (let returnForce = (0.01 :: real);
                   p1 = p\<lparr>p_vx := p_vx p + (p_originalX p - p_x p) * returnForce\<rparr>;
                   p2 = p1\<lparr>p_vy := p_vy p1 + (p_originalY p1 - p_y p1) * returnForce\<rparr>;
                   p3 = p2\<lparr>p_vx := p_vx p2 * 0.98\<rparr>
               in p3\<lparr>p_vy := p_vy p3 * 0.98\<rparr>))
      else p)"

text \<open>The body of \<^verbatim>\<open>particles.current.forEach\<close> (lines 60--93) for one particle.\<close>

definition updateParticle :: "canvas \<Rightarrow> mouse \<Rightarrow> particle \<Rightarrow> particle" where
  "updateParticle canvas m p = magnetism m (reflect canvas (advance p))"

text \<open>
  Lines 96--107: the lines of the cached connections. The particles are looked up before
  the opacity test, and read only when the line is drawn; the calls made before an
  exception stay made.
\<close>

fun drawConnections :: "particle list \<Rightarrow> connection list \<Rightarrow> draw_cmd list \<times> error option" where
  "drawConnections ps [] = ([], None)"
| "drawConnections ps (conn # conns) =
     (let opacity = 1 - c_distance conn / 150
      in if opacity > 0 then
           (if c_from conn < length ps then
              (let p1 = ps ! c_from conn
               in if c_to conn < length ps then
                    (let p2 = ps ! c_to conn;
                         (rest, err) = drawConnections ps conns
                     in ([BeginPath, MoveTo (p_x p1) (p_y p1), LineTo (p_x p2) (p_y p2),
                          SetStrokeStyle (Rgba 255 255 255 (opacity * 0.2)), Stroke] @ rest,
                         err))
                  else ([BeginPath, MoveTo (p_x p1) (p_y p1)], Some TypeError))
            else ([BeginPath], Some TypeError))
         else drawConnections ps conns)"

text \<open>Lines 109--114: one filled disc per particle.\<close>

fun drawParticles :: "particle list \<Rightarrow> draw_cmd list \<times> error option" where
  "drawParticles [] = ([], None)"
| "drawParticles (p # ps) =
     (if p_radius p < 0 then ([BeginPath], Some IndexSizeError)
      else (let (rest, err) = drawParticles ps
            in ([BeginPath, Arc (p_x p) (p_y p) (p_radius p) 0 (pi * 2),
                 SetFillStyle (p_color p), Fill] @ rest,
                err)))"

text \<open>
  \<open>animate\<close> (lines 51--119). The particle objects are updated in place, so the new
  particles are part of the state also when the draw pass raises.
\<close>

definition animate :: "frame_env \<Rightarrow> sim \<Rightarrow> step_result" where
  "animate env s =
     (case canvasRef s of
        None \<Rightarrow> \<lparr>r_state = s, r_drawn = [], r_outcome = Returned\<rparr>
      | Some canvas \<Rightarrow>
          if \<not> cv_context2d canvas then \<lparr>r_state = s, r_drawn = [], r_outcome = Returned\<rparr>
          else
            (let background =
                   [SetFillStyle (Named ''black''),
                    FillRect 0 0 (real (cv_width canvas)) (real (cv_height canvas))];
                 s1 = s\<lparr>particles := map (updateParticle canvas (mouse s)) (particles s)\<rparr>;
                 (lines, err1) = drawConnections (particles s1) (connections s1);
                 drawn1 = background @ [SetLineWidth 0.3] @ lines
             in case err1 of
                  Some e \<Rightarrow> \<lparr>r_state = s1, r_drawn = drawn1, r_outcome = Threw e\<rparr>
                | None \<Rightarrow>
                    (let (discs, err2) = drawParticles (particles s1);
                         drawn2 = drawn1 @ discs
                     in case err2 of
                          Some e \<Rightarrow> \<lparr>r_state = s1, r_drawn = drawn2, r_outcome = Threw e\<rparr>
                        | None \<Rightarrow>
                            (let s2 = (if rand env < 0.05 then updateConnections s1 else s1)
                             in \<lparr>r_state = s2\<lparr>animationFrameRef := Some (handle env)\<rparr>,
                                 r_drawn = drawn2, r_outcome = Rescheduled\<rparr>))))"

text \<open>\<open>handleMouseMove\<close> (lines 147--149).\<close>

definition handleMouseMove :: "real \<Rightarrow> real \<Rightarrow> sim \<Rightarrow> sim" where
  "handleMouseMove clientX clientY s =
     s\<lparr>mouse := \<lparr>m_x = clientX, m_y = clientY, m_moved = True\<rparr>\<rparr>"

section \<open>The initializer\<close>

text \<open>
  \<^verbatim>\<open>Math.random()\<close> is a sequence \<open>rnd\<close> of draws and the number of draws made so far.
  \<open>getRandomColor\<close> makes three draws, starting at draw \<open>k\<close>.
\<close>

definition getRandomColor :: "(nat \<Rightarrow> real) \<Rightarrow> nat \<Rightarrow> css_color" where
  "getRandomColor rnd k =
     (let hue = rnd k * 60 + 220;
          saturation = rnd (k + 1) * 30 + 70;
          lightness = rnd (k + 2) * 20 + 50
      in Hsla hue saturation lightness 0.8)"

text \<open>
  The callback of \<^verbatim>\<open>Array.from({ length: count }).map\<close> (lines 129--142): eight draws,
  in the order \<open>x, y, vx, vy, radius\<close>, then the three of the colour.
\<close>

definition newParticle :: "(nat \<Rightarrow> real) \<Rightarrow> nat \<Rightarrow> canvas \<Rightarrow> particle" where
  "newParticle rnd k canvas =
     (let x = rnd k * real (cv_width canvas);
          y = rnd (k + 1) * real (cv_height canvas)
      in \<lparr>p_x = x, p_y = y,
          p_vx = (rnd (k + 2) - 0.5) * 0.3,
          p_vy = (rnd (k + 3) - 0.5) * 0.3,
          p_radius = rnd (k + 4) * 2.5 + 1,
          p_color = getRandomColor rnd (k + 5),
          p_originalX = x, p_originalY = y\<rparr>)"

fun createParticles :: "(nat \<Rightarrow> real) \<Rightarrow> nat \<Rightarrow> canvas \<Rightarrow> nat \<Rightarrow> particle list" where
  "createParticles rnd k canvas 0 = []"
| "createParticles rnd k canvas (Suc count) =
     newParticle rnd k canvas # createParticles rnd (k + 8) canvas count"

text \<open>Line 128: the particle count of a canvas.\<close>

definition particleCount :: "canvas \<Rightarrow> nat" where
  "particleCount canvas = nat \<lfloor>real (cv_width canvas * cv_height canvas) / 8000\<rfloor>"

text \<open>
  Lines 122--142 of the mount effect: size the canvas to the window and replace the
  particle collection.
\<close>

definition populate :: "(nat \<Rightarrow> real) \<Rightarrow> nat \<Rightarrow> nat \<Rightarrow> canvas \<Rightarrow> sim \<Rightarrow> sim" where
  "populate rnd innerWidth innerHeight canvas s =
     (let canvas1 = canvas\<lparr>cv_width := innerWidth\<rparr>;
          canvas2 = canvas1\<lparr>cv_height := innerHeight\<rparr>;
          count = particleCount canvas2
      in s\<lparr>canvasRef := Some canvas2, particles := createParticles rnd 0 canvas2 count\<rparr>)"

text \<open>
  The mount effect (lines 121--145): without a canvas it returns at once; otherwise it
  populates the particles, builds the connections and runs the first \<open>animate\<close>, whose
  \<^verbatim>\<open>Math.random()\<close> is the next draw of \<open>rnd\<close>.
\<close>

definition initializer :: "(nat \<Rightarrow> real) \<Rightarrow> nat \<Rightarrow> nat \<Rightarrow> nat \<Rightarrow> sim \<Rightarrow> step_result" where
  "initializer rnd innerWidth innerHeight h s =
     (case canvasRef s of
        None \<Rightarrow> \<lparr>r_state = s, r_drawn = [], r_outcome = Returned\<rparr>
      | Some canvas \<Rightarrow>
          (let s1 = populate rnd innerWidth innerHeight canvas s;
               s2 = updateConnections s1
           in animate \<lparr>rand = rnd (8 * length (particles s1)), handle = h\<rparr> s2))"

text \<open>The references as \<^verbatim>\<open>useRef\<close> creates them, with the canvas React attached.\<close>

definition initialSim :: "canvas option \<Rightarrow> sim" where
  "initialSim c =
     \<lparr>canvasRef = c, particles = [], connections = [], animationFrameRef = None,
      mouse = \<lparr>m_x = 0, m_y = 0, m_moved = False\<rparr>\<rparr>"

text \<open>
  A run: invocations of \<open>animate\<close>, each with its environment, and pointer events between
  them. The browser invokes \<open>animate\<close> only after a frame was requested; a run allows any
  sequence, so what holds of every run holds of those.
\<close>

datatype event = Frame frame_env | MouseMove real real

fun dispatch :: "event \<Rightarrow> sim \<Rightarrow> step_result" where
  "dispatch (Frame env) s = animate env s"
| "dispatch (MouseMove clientX clientY) s =
     \<lparr>r_state = handleMouseMove clientX clientY s, r_drawn = [], r_outcome = Returned\<rparr>"

fun run :: "event list \<Rightarrow> sim \<Rightarrow> sim" where
  "run [] s = s"
| "run (ev # evs) s = run evs (r_state (dispatch ev s))"

fun outcomes :: "event list \<Rightarrow> sim \<Rightarrow> outcome list" where
  "outcomes [] s = []"
| "outcomes (ev # evs) s =
     (let r = dispatch ev s in r_outcome r # outcomes evs (r_state r))"

section \<open>The second variant of the component\<close>

text \<open>
  The second source file holds the same component with small differences: a particle also
  has \<open>life\<close> and \<open>maxLife\<close>, and its origin is optional; the frame is cleared instead of
  filled with black; the particles are created by \<open>handleResize\<close>, at mount and at every
  resize, which does not run \<open>animate\<close> itself. Its names carry the suffix \<open>_v\<close> here, and
  the fields of its particle the prefix \<open>v_\<close>.
\<close>

record vparticle =
  v_x :: real
  v_y :: real
  v_vx :: real
  v_vy :: real
  v_radius :: real
  v_color :: css_color
  v_originalX :: "real option"
  v_originalY :: "real option"
  v_life :: real
  v_maxLife :: real

record dimensions =
  d_width :: nat
  d_height :: nat

record vsim =
  canvasRef_v :: "canvas option"
  dimensions_v :: dimensions
  particlesRef :: "vparticle list"
  connectionsRef :: "connection list"
  animationRef :: nat
  mouseRef :: mouse

record vstep_result =
  vr_state :: vsim
  vr_drawn :: "draw_cmd list"
  vr_outcome :: outcome

text \<open>\<open>updateConnections\<close> of the variant (lines 214--235).\<close>

function innerLoop_v ::
  "vparticle list \<Rightarrow> nat \<Rightarrow> nat \<Rightarrow> connection list \<Rightarrow> connection list" where
  "innerLoop_v ps i j conns =
     (if j < length ps then
        (let dx = v_x (ps ! i) - v_x (ps ! j);
             dy = v_y (ps ! i) - v_y (ps ! j);
             distance = sqrt (dx * dx + dy * dy)
         in innerLoop_v ps i (j + 1)
              (if distance < 150
               then conns @ [\<lparr>c_from = i, c_to = j, c_distance = distance\<rparr>]
               else conns))
      else conns)"
  by pat_completeness auto
termination
  by (relation "measure (\<lambda>(ps, i, j, acc). length ps - j)") auto

declare innerLoop_v.simps [simp del]

function outerLoop_v :: "vparticle list \<Rightarrow> nat \<Rightarrow> connection list \<Rightarrow> connection list" where
  "outerLoop_v ps i conns =
     (if i < length ps
      then outerLoop_v ps (i + 1) (innerLoop_v ps i (i + 1) conns)
      else conns)"
  by pat_completeness auto
termination
  by (relation "measure (\<lambda>(ps, i, acc). length ps - i)") auto

declare outerLoop_v.simps [simp del]

definition updateConnections_v :: "vsim \<Rightarrow> vsim" where
  "updateConnections_v s = s\<lparr>connectionsRef := outerLoop_v (particlesRef s) 0 []\<rparr>"

text \<open>
  The body of \<^verbatim>\<open>particles.forEach\<close> in \<open>animate\<close> (lines 118--169), in its three
  parts: the advance (lines 120--121), the bounce off the edges (lines 124--129) and the
  magnetic effect (lines 132--168). The return to the origin is taken only when both
  coordinates of the origin are defined.
\<close>

definition advance_v :: "vparticle \<Rightarrow> vparticle" where
  "advance_v p = (let p1 = p\<lparr>v_x := v_x p + v_vx p\<rparr> in p1\<lparr>v_y := v_y p1 + v_vy p1\<rparr>)"

definition reflect_v :: "canvas \<Rightarrow> vparticle \<Rightarrow> vparticle" where
  "reflect_v canvas p =
     (let p1 = (if v_x p < 0 \<or> v_x p > real (cv_width canvas)
                then p\<lparr>v_vx := - v_vx p\<rparr> else p)
      in if v_y p1 < 0 \<or> v_y p1 > real (cv_height canvas)
         then p1\<lparr>v_vy := - v_vy p1\<rparr> else p1)"

definition magnetism_v :: "mouse \<Rightarrow> vparticle \<Rightarrow> vparticle" where
  "magnetism_v m p =
     (let mouseX = m_x m; mouseY = m_y m; mouseMoved = m_moved m
      in if mouseMoved then
           (let dx = mouseX - v_x p;
                dy = mouseY - v_y p;
                distance = sqrt (dx * dx + dy * dy);
                magneticRadius = (200 :: real)
            in if distance < magneticRadius then
                 (let force = 0.9 * (1 - distance / magneticRadius);
                      angle = atan2 dy dx;
                      p1 = p\<lparr>v_vx := v_vx p + cos angle * force * 0.2\<rparr>;
                      p2 = p1\<lparr>v_vy := v_vy p1 + sin angle * force * 0.2\<rparr>;
                      speed = sqrt (v_vx p2 * v_vx p2 + v_vy p2 * v_vy p2);
                      maxSpeed = (3 :: real)
                  in if speed > maxSpeed then
                       (let p3 = p2\<lparr>v_vx := v_vx p2 / speed * maxSpeed\<rparr>
                        in p3\<lparr>v_vy := v_vy p3 / speed * maxSpeed\<rparr>)
                     else p2)
               else
                 (case (v_originalX p, v_originalY p) of
                    (Some originalX, Some originalY) \<Rightarrow>
                      (let returnForce = (0.01 :: real);
                           p1 = p\<lparr>v_vx := v_vx p + (originalX - v_x p) * returnForce\<rparr>;
                           p2 = p1\<lparr>v_vy := v_vy p1 + (originalY - v_y p1) * returnForce\<rparr>;
                           p3 = p2\<lparr>v_vx := v_vx p2 * 0.98\<rparr>
                       in p3\<lparr>v_vy := v_vy p3 * 0.98\<rparr>)
                  | _ \<Rightarrow> p))
         else p)"

definition updateParticle_v :: "canvas \<Rightarrow> mouse \<Rightarrow> vparticle \<Rightarrow> vparticle" where
  "updateParticle_v canvas m p = magnetism_v m (reflect_v canvas (advance_v p))"

text \<open>The two draw loops (lines 173--196).\<close>

fun drawConnections_v :: "vparticle list \<Rightarrow> connection list \<Rightarrow> draw_cmd list \<times> error option" where
  "drawConnections_v ps [] = ([], None)"
| "drawConnections_v ps (conn # conns) =
     (let maxDistance = (150 :: real);
          opacity = 1 - c_distance conn / maxDistance
      in if opacity > 0 then
           (if c_from conn < length ps then
              (let p1 = ps ! c_from conn
               in if c_to conn < length ps then
                    (let p2 = ps ! c_to conn;
                         (rest, err) = drawConnections_v ps conns
                     in ([BeginPath, MoveTo (v_x p1) (v_y p1), LineTo (v_x p2) (v_y p2),
                          SetStrokeStyle (Rgba 255 255 255 (opacity * 0.2)), Stroke] @ rest,
                         err))
                  else ([BeginPath, MoveTo (v_x p1) (v_y p1)], Some TypeError))
            else ([BeginPath], Some TypeError))
         else drawConnections_v ps conns)"

fun drawParticles_v :: "vparticle list \<Rightarrow> draw_cmd list \<times> error option" where
  "drawParticles_v [] = ([], None)"
| "drawParticles_v (p # ps) =
     (if v_radius p < 0 then ([BeginPath], Some IndexSizeError)
      else (let (rest, err) = drawParticles_v ps
            in ([BeginPath, Arc (v_x p) (v_y p) (v_radius p) 0 (pi * 2),
                 SetFillStyle (v_color p), Fill] @ rest,
                err)))"

text \<open>\<open>animate\<close> of the variant (lines 102--204).\<close>

definition animate_v :: "frame_env \<Rightarrow> vsim \<Rightarrow> vstep_result" where
  "animate_v env s =
     (case canvasRef_v s of
        None \<Rightarrow> \<lparr>vr_state = s, vr_drawn = [], vr_outcome = Returned\<rparr>
      | Some canvas \<Rightarrow>
          if \<not> cv_context2d canvas then \<lparr>vr_state = s, vr_drawn = [], vr_outcome = Returned\<rparr>
          else
            (let cleared = [ClearRect 0 0 (real (cv_width canvas)) (real (cv_height canvas))];
                 connections = connectionsRef s;
                 s1 = s\<lparr>particlesRef := map (updateParticle_v canvas (mouseRef s)) (particlesRef s)\<rparr>;
                 (lines, err1) = drawConnections_v (particlesRef s1) connections;
                 drawn1 = cleared @ [SetLineWidth 0.3] @ lines
             in case err1 of
                  Some e \<Rightarrow> \<lparr>vr_state = s1, vr_drawn = drawn1, vr_outcome = Threw e\<rparr>
                | None \<Rightarrow>
                    (let (discs, err2) = drawParticles_v (particlesRef s1);
                         drawn2 = drawn1 @ discs
                     in case err2 of
                          Some e \<Rightarrow> \<lparr>vr_state = s1, vr_drawn = drawn2, vr_outcome = Threw e\<rparr>
                        | None \<Rightarrow>
                            (let s2 = (if rand env < 0.05 then updateConnections_v s1 else s1)
                             in \<lparr>vr_state = s2\<lparr>animationRef := handle env\<rparr>,
                                 vr_drawn = drawn2, vr_outcome = Rescheduled\<rparr>))))"

text \<open>
  \<open>handleResize\<close> (lines 38--71): the loop \<^verbatim>\<open>for (let i = 0; i < particleCount; i++)\<close>
  pushes one particle per round, with eight draws of \<^verbatim>\<open>Math.random()\<close> from draw \<open>k\<close> on.
\<close>

function createLoop_v ::
  "(nat \<Rightarrow> real) \<Rightarrow> nat \<Rightarrow> nat \<Rightarrow> nat \<Rightarrow> nat \<Rightarrow> nat \<Rightarrow> vparticle list \<Rightarrow> vparticle list" where
  "createLoop_v rnd k width height count i ps =
     (if i < count then
        (let x = rnd k * real width;
             y = rnd (k + 1) * real height
         in createLoop_v rnd (k + 8) width height count (i + 1)
              (ps @
                 [\<lparr>v_x = x, v_y = y,
                   v_vx = (rnd (k + 2) - 0.5) * 0.3,
                   v_vy = (rnd (k + 3) - 0.5) * 0.3,
                   v_radius = rnd (k + 4) * 2.5 + 1,
                   v_color = getRandomColor rnd (k + 5),
                   v_originalX = Some x, v_originalY = Some y,
                   v_life = 100, v_maxLife = 100\<rparr>]))
      else ps)"
  by pat_completeness auto
termination
  by (relation "measure (\<lambda>(rnd, k, w, h, n, i, acc). n - i)") auto

declare createLoop_v.simps [simp del]

definition handleResize_v :: "(nat \<Rightarrow> real) \<Rightarrow> nat \<Rightarrow> nat \<Rightarrow> vsim \<Rightarrow> vsim" where
  "handleResize_v rnd innerWidth innerHeight s =
     (case canvasRef_v s of
        None \<Rightarrow> s
      | Some canvas \<Rightarrow>
          (let width = innerWidth;
               height = innerHeight;
               canvas1 = canvas\<lparr>cv_width := width\<rparr>;
               canvas2 = canvas1\<lparr>cv_height := height\<rparr>;
               s1 = s\<lparr>canvasRef_v := Some canvas2,
                      dimensions_v := \<lparr>d_width = width, d_height = height\<rparr>\<rparr>;
               particleCount = nat \<lfloor>real (width * height) / 8000\<rfloor>;
               particles = createLoop_v rnd 0 width height particleCount 0 [];
               s2 = s1\<lparr>particlesRef := particles\<rparr>
           in updateConnections_v s2))"

text \<open>
  The particle of the first file that a particle of the variant with a defined origin
  stands for, and the state that a state of the variant stands for.
\<close>

definition erase :: "vparticle \<Rightarrow> particle" where
  "erase p =
     \<lparr>p_x = v_x p, p_y = v_y p, p_vx = v_vx p, p_vy = v_vy p, p_radius = v_radius p,
      p_color = v_color p, p_originalX = the (v_originalX p), p_originalY = the (v_originalY p)\<rparr>"

definition anchored :: "vparticle \<Rightarrow> bool" where
  "anchored p \<longleftrightarrow> v_originalX p \<noteq> None \<and> v_originalY p \<noteq> None"

definition abstract :: "vsim \<Rightarrow> sim" where
  "abstract s =
     \<lparr>canvasRef = canvasRef_v s, particles = map erase (particlesRef s),
      connections = connectionsRef s, animationFrameRef = Some (animationRef s),
      mouse = mouseRef s\<rparr>"

section \<open>The loops in closed form, and the specification's scan\<close>

text \<open>
  What the inner loop appends when started at \<open>j\<close>, and what the two loops append
  together, written as list comprehensions; the loops are shown equal to them below.
\<close>

definition scanFrom :: "particle list \<Rightarrow> nat \<Rightarrow> nat \<Rightarrow> connection list" where
  "scanFrom ps i j =
     map (\<lambda>j. \<lparr>c_from = i, c_to = j, c_distance = pairDistance ps i j\<rparr>)
       (filter (\<lambda>j. pairDistance ps i j < 150) [j..<length ps])"

definition directScan :: "particle list \<Rightarrow> connection list" where
  "directScan ps = concat (map (\<lambda>i. scanFrom ps i (i + 1)) [0..<length ps])"

text \<open>
  Following the specification's words: the Euclidean distance of two particles, and the
  unordered pairs of particles at distance strictly less than 150, each pair taken once,
  as the pair of its indices with the lower index first.
\<close>

definition euclidean :: "particle \<Rightarrow> particle \<Rightarrow> real" where
  "euclidean a b = sqrt ((p_x a - p_x b)\<^sup>2 + (p_y a - p_y b)\<^sup>2)"

definition closePairs :: "particle list \<Rightarrow> (nat \<times> nat) set" where
  "closePairs ps = {(i, j). i < j \<and> j < length ps \<and> euclidean (ps ! i) (ps ! j) < 150}"

text \<open>The place of a connection and the position of a particle.\<close>

definition endpoints :: "connection \<Rightarrow> nat \<times> nat" where
  "endpoints c = (c_from c, c_to c)"

definition position :: "particle \<Rightarrow> real \<times> real" where
  "position p = (p_x p, p_y p)"

text \<open>
  The invariant of a coordinate \<open>x\<close> with velocity \<open>v\<close> while the pointer has not moved,
  for a bound \<open>W\<close>: the speed is at most 0.15, and the coordinate is within \<open>[0, W]\<close>, or
  it is outside and the next advance brings it back to where it left from.
\<close>

definition withinReach :: "real \<Rightarrow> real \<Rightarrow> real \<Rightarrow> bool" where
  "withinReach W x v \<longleftrightarrow>
     \<bar>v\<bar> \<le> 0.15 \<and> (0 \<le> x \<and> x \<le> W \<or> x < 0 \<and> 0 \<le> x + v \<or> W < x \<and> x + v \<le> W)"

definition particleWithinReach :: "canvas \<Rightarrow> particle \<Rightarrow> bool" where
  "particleWithinReach c p \<longleftrightarrow>
     withinReach (real (cv_width c)) (p_x p) (p_vx p)
     \<and> withinReach (real (cv_height c)) (p_y p) (p_vy p)"

section \<open>Example states\<close>

definition particleAt :: "real \<Rightarrow> real \<Rightarrow> real \<Rightarrow> real \<Rightarrow> particle" where
  "particleAt x y vx vy =
     \<lparr>p_x = x, p_y = y, p_vx = vx, p_vy = vy, p_radius = 1, p_color = Hsla 220 70 50 0.8,
      p_originalX = x, p_originalY = y\<rparr>"

definition canvas800 :: canvas where
  "canvas800 = \<lparr>cv_width = 800, cv_height = 600, cv_context2d = True\<rparr>"

text \<open>
  Three particles at rest: the first two are at distance exactly 150, the third is at
  distance 50 from the first and 100 from the second.
\<close>

definition triangleSim :: sim where
  "triangleSim =
     (initialSim (Some canvas800))
       \<lparr>particles := [particleAt 0 0 0 0, particleAt 90 120 0 0, particleAt 30 40 0 0]\<rparr>"

text \<open>The same positions, with other velocities.\<close>

definition triangleMoving :: sim where
  "triangleMoving =
     (initialSim (Some canvas800))
       \<lparr>particles := [particleAt 0 0 0.125 0, particleAt 90 120 0 (- 0.125), particleAt 30 40 0 0]\<rparr>"

text \<open>
  One particle about to leave through the left edge, the pointer never moved; and the
  environments of a frame that does not rebuild the connections and of one that does.
\<close>

definition edgeParticle :: particle where
  "edgeParticle = particleAt 0.0625 100 (- 0.125) 0"

definition edgeSim :: sim where
  "edgeSim = (initialSim (Some canvas800))\<lparr>particles := [edgeParticle]\<rparr>"

definition quietEnv :: frame_env where
  "quietEnv = \<lparr>rand = 0.5, handle = 1\<rparr>"

definition fireEnv :: frame_env where
  "fireEnv = \<lparr>rand = 0, handle = 1\<rparr>"

text \<open>
  A particle 53 away from its origin that moves towards it at speed 3, the speed the clamp
  leaves, with the pointer 300 away from where the step takes it; a fast particle that
  the step carries onto the pointer; and two particles at distance 150.125
  that approach each other, with the connections built from these positions.
\<close>

definition strayParticle :: particle where
  "strayParticle = (particleAt 100 100 (- 3) 0)\<lparr>p_x := 153\<rparr>"

definition pointerAt :: "real \<Rightarrow> real \<Rightarrow> mouse" where
  "pointerAt x y = \<lparr>m_x = x, m_y = y, m_moved = True\<rparr>"

definition straySim :: sim where
  "straySim =
     (initialSim (Some canvas800))\<lparr>particles := [strayParticle], mouse := pointerAt 450 100\<rparr>"

definition fastParticle :: particle where
  "fastParticle = particleAt 95 100 5 0"

definition chaseSim :: sim where
  "chaseSim =
     (initialSim (Some canvas800))\<lparr>particles := [fastParticle], mouse := pointerAt 100 100\<rparr>"

definition leftParticle :: particle where
  "leftParticle = particleAt 0 100 0.125 0"

definition rightParticle :: particle where
  "rightParticle = particleAt 150.125 100 (- 0.125) 0"

definition leftMoved :: particle where
  "leftMoved = leftParticle\<lparr>p_x := 0.125\<rparr>"

definition rightMoved :: particle where
  "rightMoved = rightParticle\<lparr>p_x := 150\<rparr>"

definition approachSim :: sim where
  "approachSim =
     updateConnections
       ((initialSim (Some canvas800))\<lparr>particles := [leftParticle, rightParticle]\<rparr>)"

text \<open>
  A random source whose every draw is 0.5; the particles it gives a window of 200 by 100;
  and the state the mount effect leaves for a window of width 0.
\<close>

definition halves :: "nat \<Rightarrow> real" where
  "halves k = 0.5"

definition smallSim :: sim where
  "smallSim = populate halves 200 100 canvas800 (initialSim (Some canvas800))"

definition emptySim :: sim where
  "emptySim = r_state (initializer halves 0 600 1 (initialSim (Some canvas800)))"

text \<open>
  A random source for a window of 800 by 600 that puts the first particle at
  \<open>x = 149.9\<close> and the second at \<open>x = 150.05\<close>, gives every particle the velocity
  \<open>(-0.15, 0)\<close> and draws 0.5 everywhere else; and the state the mount effect leaves
  with it.
\<close>

definition skimRnd :: "nat \<Rightarrow> real" where
  "skimRnd k =
     (if k = 0 then 0.187375 else if k = 8 then 0.1875625 else if k mod 8 = 2 then 0 else 0.5)"

definition skimStart :: sim where
  "skimStart = r_state (initializer skimRnd 800 600 1 (initialSim (Some canvas800)))"

section \<open>Correctness of the connection-graph builder\<close>

lemma scanFrom_step:
  "j < length ps \<Longrightarrow>
   scanFrom ps i j =
     (if pairDistance ps i j < 150
      then [\<lparr>c_from = i, c_to = j, c_distance = pairDistance ps i j\<rparr>] else [])
     @ scanFrom ps i (j + 1)"
  by (simp add: scanFrom_def upt_conv_Cons)

lemma scanFrom_done: "\<not> j < length ps \<Longrightarrow> scanFrom ps i j = []"
  by (simp add: scanFrom_def)

lemma innerLoop_scanFrom: "innerLoop ps i j acc = acc @ scanFrom ps i j"
proof (induction ps i j acc rule: innerLoop.induct)
  case (1 ps i j acc)
  show ?case
  proof (cases "j < length ps")
    case True
    then show ?thesis
      using "1.IH" [OF True refl]
      by (subst innerLoop.simps) (simp add: scanFrom_step Let_def)
  next
    case False
    then show ?thesis
      by (subst innerLoop.simps) (simp add: scanFrom_done)
  qed
qed

lemma outerLoop_scan:
  "outerLoop ps i acc = acc @ concat (map (\<lambda>i. scanFrom ps i (i + 1)) [i..<length ps])"
proof (induction ps i acc rule: outerLoop.induct)
  case (1 ps i acc)
  show ?case
  proof (cases "i < length ps")
    case True
    then show ?thesis
      using "1.IH" [OF True]
      by (subst outerLoop.simps) (simp add: innerLoop_scanFrom upt_conv_Cons)
  next
    case False
    then show ?thesis
      by (subst outerLoop.simps) simp
  qed
qed

lemma updateConnections_directScan:
  "connections (updateConnections s) = directScan (particles s)"
  by (simp add: updateConnections_def outerLoop_scan directScan_def)

lemma set_scanFrom:
  "set (scanFrom ps i k) =
     {\<lparr>c_from = i, c_to = j, c_distance = pairDistance ps i j\<rparr> | j.
        k \<le> j \<and> j < length ps \<and> pairDistance ps i j < 150}"
  by (auto simp: scanFrom_def)

lemma set_directScan:
  "set (directScan ps) =
     {\<lparr>c_from = i, c_to = j, c_distance = pairDistance ps i j\<rparr> | i j.
        i < j \<and> j < length ps \<and> pairDistance ps i j < 150}"
  by (fastforce simp: directScan_def set_scanFrom Suc_le_eq)

lemma distinct_concat_map:
  "distinct xs \<Longrightarrow> (\<And>x. x \<in> set xs \<Longrightarrow> distinct (f x)) \<Longrightarrow>
   (\<And>x y. x \<in> set xs \<Longrightarrow> y \<in> set xs \<Longrightarrow> x \<noteq> y \<Longrightarrow> set (f x) \<inter> set (f y) = {}) \<Longrightarrow>
   distinct (concat (map f xs))"
  by (induction xs) auto

lemma keys_scanFrom:
  "map (\<lambda>c. (c_from c, c_to c)) (scanFrom ps i k) =
     map (Pair i) (filter (\<lambda>j. pairDistance ps i j < 150) [k..<length ps])"
  by (simp add: scanFrom_def comp_def)

lemma distinct_keys_directScan:
  "distinct (map (\<lambda>c. (c_from c, c_to c)) (directScan ps))"
proof -
  have "map (\<lambda>c. (c_from c, c_to c)) (directScan ps) =
        concat (map (\<lambda>i. map (Pair i) (filter (\<lambda>j. pairDistance ps i j < 150) [i + 1..<length ps]))
          [0..<length ps])"
    by (simp add: directScan_def map_concat comp_def keys_scanFrom)
  also have "distinct \<dots>"
    by (rule distinct_concat_map) (auto simp: distinct_map inj_on_def)
  finally show ?thesis .
qed

lemma directScan_positions:
  assumes "map (\<lambda>p. (p_x p, p_y p)) ps' = map (\<lambda>p. (p_x p, p_y p)) ps"
  shows "directScan ps' = directScan ps"
proof -
  have len: "length ps' = length ps"
    using assms by (metis length_map)
  have nth: "\<And>i. i < length ps \<Longrightarrow> p_x (ps' ! i) = p_x (ps ! i) \<and> p_y (ps' ! i) = p_y (ps ! i)"
  proof -
    fix i assume i: "i < length ps"
    have "map (\<lambda>p. (p_x p, p_y p)) ps' ! i = map (\<lambda>p. (p_x p, p_y p)) ps ! i"
      using assms by simp
    then show "p_x (ps' ! i) = p_x (ps ! i) \<and> p_y (ps' ! i) = p_y (ps ! i)"
      using i len by simp
  qed
  have pd: "\<And>i j. i < length ps \<Longrightarrow> j < length ps \<Longrightarrow> pairDistance ps' i j = pairDistance ps i j"
    by (simp add: pairDistance_def nth)
  have row: "\<And>i. i < length ps \<Longrightarrow> scanFrom ps' i (i + 1) = scanFrom ps i (i + 1)"
  proof -
    fix i assume i: "i < length ps"
    have "filter (\<lambda>j. pairDistance ps' i j < 150) [i + 1..<length ps] =
          filter (\<lambda>j. pairDistance ps i j < 150) [i + 1..<length ps]"
      by (rule filter_cong) (simp_all add: pd i)
    then show "scanFrom ps' i (i + 1) = scanFrom ps i (i + 1)"
      unfolding scanFrom_def len by (auto simp: pd i)
  qed
  show ?thesis
    unfolding directScan_def len
    using row by (auto intro!: arg_cong [where f = concat])
qed


lemma pairDistance_euclidean: "pairDistance ps i j = euclidean (ps ! i) (ps ! j)"
  by (simp add: pairDistance_def euclidean_def power2_eq_square Let_def)

lemma set_directScan_closePairs:
  "set (directScan ps) =
     (\<lambda>(i, j). \<lparr>c_from = i, c_to = j, c_distance = euclidean (ps ! i) (ps ! j)\<rparr>) ` closePairs ps"
  unfolding set_directScan closePairs_def pairDistance_euclidean
  by (auto simp: image_iff)

lemma endpoints_directScan: "endpoints ` set (directScan ps) = closePairs ps"
  unfolding set_directScan_closePairs
  by (force simp: endpoints_def image_iff)

lemma length_directScan: "length (directScan ps) = card (closePairs ps)"
proof -
  have "distinct (map endpoints (directScan ps))"
    using distinct_keys_directScan [of ps] by (simp add: endpoints_def [abs_def])
  then have "card (set (map endpoints (directScan ps))) = length (directScan ps)"
    using distinct_card by fastforce
  then show ?thesis
    by (simp add: endpoints_directScan)
qed

lemma sqrt_2500: "sqrt 2500 = 50"
  by (rule real_sqrt_unique) simp_all

lemma sqrt_10000: "sqrt 10000 = 100"
  by (rule real_sqrt_unique) simp_all

lemma sqrt_22500: "sqrt 22500 = 150"
  by (rule real_sqrt_unique) simp_all

lemma triangle_connections:
  "connections (updateConnections triangleSim) =
     [\<lparr>c_from = 0, c_to = 2, c_distance = 50\<rparr>, \<lparr>c_from = 1, c_to = 2, c_distance = 100\<rparr>]"
  by (simp add: updateConnections_directScan directScan_def scanFrom_def triangleSim_def
      initialSim_def particleAt_def pairDistance_def Let_def sqrt_2500 sqrt_10000 sqrt_22500)

text \<open>
  Claim C1. For every particle collection, \<open>updateConnections\<close> stores exactly the pairs
  of particles whose Euclidean distance is strictly less than 150: one connection for each
  pair of \<open>closePairs\<close>, with the lower index in \<open>from\<close>, the higher in \<open>to\<close> and the
  distance of the two particles in \<open>distance\<close>; no two connections have the same
  endpoints; and two states whose particles have the same positions get the same
  connections.
\<close>

theorem updateConnections_exact:
  "set (connections (updateConnections s)) =
     (\<lambda>(i, j). \<lparr>c_from = i, c_to = j,
                 c_distance = euclidean (particles s ! i) (particles s ! j)\<rparr>)
       ` closePairs (particles s)
   \<and> distinct (map endpoints (connections (updateConnections s)))
   \<and> (\<forall>s'. map position (particles s') = map position (particles s)
        \<longrightarrow> connections (updateConnections s') = connections (updateConnections s))"
proof (intro conjI allI impI)
  show "set (connections (updateConnections s)) =
     (\<lambda>(i, j). \<lparr>c_from = i, c_to = j,
                 c_distance = euclidean (particles s ! i) (particles s ! j)\<rparr>)
       ` closePairs (particles s)"
    by (simp add: updateConnections_directScan set_directScan_closePairs)
  show "distinct (map endpoints (connections (updateConnections s)))"
    using distinct_keys_directScan [of "particles s"]
    by (simp add: updateConnections_directScan endpoints_def [abs_def])
next
  fix s' :: sim
  assume "map position (particles s') = map position (particles s)"
  then have "map (\<lambda>p. (p_x p, p_y p)) (particles s') = map (\<lambda>p. (p_x p, p_y p)) (particles s)"
    by (simp add: position_def [abs_def])
  then have "directScan (particles s') = directScan (particles s)"
    by (rule directScan_positions)
  then show "connections (updateConnections s') = connections (updateConnections s)"
    by (simp add: updateConnections_directScan)
qed

text \<open>The claim at the triangle: the pair at distance exactly 150 is not connected.\<close>

theorem updateConnections_exact_witness:
  "map position (particles triangleMoving) = map position (particles triangleSim)
   \<and> connections (updateConnections triangleMoving) = connections (updateConnections triangleSim)
   \<and> set (connections (updateConnections triangleSim)) =
       {\<lparr>c_from = 0, c_to = 2, c_distance = 50\<rparr>, \<lparr>c_from = 1, c_to = 2, c_distance = 100\<rparr>}
   \<and> distinct (map endpoints (connections (updateConnections triangleSim)))"
proof -
  have pos: "map position (particles triangleMoving) = map position (particles triangleSim)"
    by (simp add: triangleMoving_def triangleSim_def particleAt_def position_def)
  have "connections (updateConnections triangleMoving) = connections (updateConnections triangleSim)"
    using updateConnections_exact [of triangleSim] pos by blast
  moreover have "distinct (map endpoints (connections (updateConnections triangleSim)))"
    using updateConnections_exact [of triangleSim] by blast
  ultimately show ?thesis
    using pos by (simp add: triangle_connections)
qed

text \<open>
  Claim C10. Every connection that \<open>updateConnections\<close> stores has
  \<open>0 \<le> from < to < length particles\<close>: right after a rebuild each connection refers to
  two distinct particles of the array.
\<close>

theorem updateConnections_indices:
  "\<forall>c \<in> set (connections (updateConnections s)).
     0 \<le> c_from c \<and> c_from c < c_to c \<and> c_to c < length (particles s)"
  by (auto simp: updateConnections_directScan set_directScan)

text \<open>The claim at the first connection of the triangle.\<close>

theorem updateConnections_indices_witness:
  "\<lparr>c_from = 0, c_to = 2, c_distance = 50\<rparr> \<in> set (connections (updateConnections triangleSim))
   \<and> (0::nat) < 2 \<and> (2::nat) < length (particles triangleSim)"
proof -
  have mem: "\<lparr>c_from = 0, c_to = 2, c_distance = 50\<rparr> \<in> set (connections (updateConnections triangleSim))"
    by (simp add: triangle_connections)
  from updateConnections_indices [of triangleSim] mem
  have "c_from \<lparr>c_from = 0, c_to = 2, c_distance = 50\<rparr> < c_to \<lparr>c_from = 0, c_to = 2, c_distance = 50\<rparr>
      \<and> c_to \<lparr>c_from = 0, c_to = 2, c_distance = 50\<rparr> < length (particles triangleSim)"
    by blast
  with mem show ?thesis by simp
qed

section \<open>Properties of the simulation step\<close>

lemma animate_without_surface:
  "canvasRef s = None \<or> (\<exists>c. canvasRef s = Some c \<and> \<not> cv_context2d c) \<Longrightarrow>
   animate env s = \<lparr>r_state = s, r_drawn = [], r_outcome = Returned\<rparr>"
  by (auto simp: animate_def)

lemma animate_particles:
  "canvasRef s = Some c \<Longrightarrow> cv_context2d c \<Longrightarrow>
   particles (r_state (animate env s)) = map (updateParticle c (mouse s)) (particles s)"
  by (simp add: animate_def Let_def updateConnections_def split: prod.splits option.splits)

lemma animate_mouse: "mouse (r_state (animate env s)) = mouse s"
  by (simp add: animate_def Let_def updateConnections_def split: prod.splits option.splits)

lemma animate_canvasRef: "canvasRef (r_state (animate env s)) = canvasRef s"
  by (simp add: animate_def Let_def updateConnections_def split: prod.splits option.splits)

lemma advance_fields:
  "p_x (advance p) = p_x p + p_vx p" "p_y (advance p) = p_y p + p_vy p"
  "p_vx (advance p) = p_vx p" "p_vy (advance p) = p_vy p"
  "p_originalX (advance p) = p_originalX p" "p_originalY (advance p) = p_originalY p"
  "p_radius (advance p) = p_radius p" "p_color (advance p) = p_color p"
  by (simp_all add: advance_def Let_def)

lemma reflect_fields:
  "p_x (reflect c p) = p_x p" "p_y (reflect c p) = p_y p"
  "p_vx (reflect c p) = (if p_x p < 0 \<or> p_x p > real (cv_width c) then - p_vx p else p_vx p)"
  "p_vy (reflect c p) = (if p_y p < 0 \<or> p_y p > real (cv_height c) then - p_vy p else p_vy p)"
  "p_originalX (reflect c p) = p_originalX p" "p_originalY (reflect c p) = p_originalY p"
  "p_radius (reflect c p) = p_radius p" "p_color (reflect c p) = p_color p"
  by (simp_all add: reflect_def Let_def)

lemma magnetism_position:
  "p_x (magnetism m p) = p_x p" "p_y (magnetism m p) = p_y p"
  by (simp_all add: magnetism_def Let_def)

lemma magnetism_unmoved: "\<not> m_moved m \<Longrightarrow> magnetism m p = p"
  by (simp add: magnetism_def)

lemma updateParticle_position:
  "p_x (updateParticle c m p) = p_x p + p_vx p" "p_y (updateParticle c m p) = p_y p + p_vy p"
  by (simp_all add: updateParticle_def magnetism_position reflect_fields advance_fields)

lemma edgeParticle_fields:
  "p_x edgeParticle = 0.0625" "p_y edgeParticle = 100"
  "p_vx edgeParticle = - 0.125" "p_vy edgeParticle = 0"
  by (simp_all add: edgeParticle_def particleAt_def)

lemma canvas800_fields:
  "cv_width canvas800 = 800" "cv_height canvas800 = 600" "cv_context2d canvas800"
  by (simp_all add: canvas800_def)

lemma edgeSim_fields:
  "canvasRef edgeSim = Some canvas800" "particles edgeSim = [edgeParticle]"
  "\<not> m_moved (mouse edgeSim)" "connections edgeSim = []"
  by (simp_all add: edgeSim_def initialSim_def)

text \<open>
  Claim C5. A simulation step first adds the velocity of a particle to its position; the
  reflection is then tested on the advanced position: \<open>vx\<close> is negated exactly when the
  new \<open>x\<close> lies outside \<open>[0, width]\<close>, and \<open>vy\<close> independently for \<open>y\<close> and
  \<open>height\<close>, so a reflected component has the magnitude it had and the opposite sign.
  The particle the step leaves is the reflected one after the magnetism phase, which like
  the reflection does not touch the position: the particle ends the step at the advanced
  position, inside the bounds or not.
\<close>

theorem animate_reflects_after_advance:
  assumes "canvasRef s = Some canvas" and "cv_context2d canvas" and "i < length (particles s)"
  shows "let p = particles s ! i;
             r = reflect canvas (advance p);
             q = particles (r_state (animate env s)) ! i
    in p_x (advance p) = p_x p + p_vx p \<and> p_y (advance p) = p_y p + p_vy p
     \<and> p_vx (advance p) = p_vx p \<and> p_vy (advance p) = p_vy p
     \<and> p_vx r = (if p_x p + p_vx p < 0 \<or> p_x p + p_vx p > real (cv_width canvas)
                 then - p_vx p else p_vx p)
     \<and> p_vy r = (if p_y p + p_vy p < 0 \<or> p_y p + p_vy p > real (cv_height canvas)
                 then - p_vy p else p_vy p)
     \<and> p_x r = p_x p + p_vx p \<and> p_y r = p_y p + p_vy p
     \<and> q = magnetism (mouse s) r
     \<and> p_x q = p_x p + p_vx p \<and> p_y q = p_y p + p_vy p"
  using assms
  by (simp add: Let_def animate_particles updateParticle_def magnetism_position reflect_fields
      advance_fields)

text \<open>
  The claim at a particle that leaves through the left edge: it ends the step at
  \<open>x = -0.0625\<close>, with \<open>vx\<close> turned from \<open>-0.125\<close> into \<open>0.125\<close>.
\<close>

theorem animate_reflects_after_advance_witness:
  "canvasRef edgeSim = Some canvas800 \<and> cv_context2d canvas800
   \<and> (0::nat) < length (particles edgeSim)
   \<and> p_x (particles edgeSim ! 0) = 0.0625 \<and> p_vx (particles edgeSim ! 0) = - 0.125
   \<and> p_x (particles (r_state (animate quietEnv edgeSim)) ! 0) = - 0.0625
   \<and> p_vx (reflect canvas800 (advance (particles edgeSim ! 0))) = 0.125
   \<and> p_vx (particles (r_state (animate quietEnv edgeSim)) ! 0) = 0.125"
proof -
  have h: "canvasRef edgeSim = Some canvas800" "cv_context2d canvas800"
    "(0::nat) < length (particles edgeSim)"
    by (simp_all add: edgeSim_fields canvas800_fields)
  note t = animate_reflects_after_advance [OF h, of quietEnv, unfolded Let_def]
  have p: "particles edgeSim ! 0 = edgeParticle"
    by (simp add: edgeSim_fields)
  from t have x: "p_x (particles (r_state (animate quietEnv edgeSim)) ! 0) =
      p_x edgeParticle + p_vx edgeParticle"
    unfolding p by blast
  from t have r: "p_vx (reflect canvas800 (advance edgeParticle)) =
      (if p_x edgeParticle + p_vx edgeParticle < 0
         \<or> p_x edgeParticle + p_vx edgeParticle > real (cv_width canvas800)
       then - p_vx edgeParticle else p_vx edgeParticle)"
    unfolding p by blast
  from t have q: "particles (r_state (animate quietEnv edgeSim)) ! 0 =
      magnetism (mouse edgeSim) (reflect canvas800 (advance edgeParticle))"
    unfolding p by blast
  have v: "p_vx (particles (r_state (animate quietEnv edgeSim)) ! 0) = 0.125"
    by (simp add: q r magnetism_unmoved edgeSim_fields edgeParticle_fields)
  show ?thesis
    using h by (simp add: p x r v edgeSim_fields edgeParticle_fields)
qed

text \<open>
  Claim C3 says that a step leaves every velocity as it was when the pointer has never
  moved. The boundary reflection does not depend on the pointer: the particle at
  \<open>x = 0.0625\<close> with \<open>vx = -0.125\<close> ends the step with \<open>vx = 0.125\<close>.
\<close>

theorem animate_unmoved_velocity_counterexample:
  "\<not> m_moved (mouse edgeSim)
   \<and> p_vx (particles edgeSim ! 0) = - 0.125
   \<and> p_vx (particles (r_state (animate quietEnv edgeSim)) ! 0) = 0.125"
  by (simp add: animate_particles [of edgeSim canvas800] updateParticle_def magnetism_unmoved
      reflect_fields advance_fields edgeSim_fields edgeParticle_fields canvas800_fields)

text \<open>
  Claim C3, amended. When the pointer has never moved, a step changes a velocity only by
  boundary reflection: \<open>vx\<close> after the step is \<open>vx\<close> before it, negated exactly when
  the advanced \<open>x\<close> lies outside \<open>[0, width]\<close>, and \<open>vy\<close> likewise for \<open>y\<close> and
  \<open>height\<close>; a particle whose advanced position is within the bounds keeps its
  velocity. Without a drawing surface nothing changes.
\<close>

theorem animate_unmoved_velocity:
  assumes "\<not> m_moved (mouse s)" and "i < length (particles s)"
  shows "length (particles (r_state (animate env s))) = length (particles s)
    \<and> (let p = particles s ! i; q = particles (r_state (animate env s)) ! i
       in case canvasRef s of
            None \<Rightarrow> p_vx q = p_vx p \<and> p_vy q = p_vy p
          | Some canvas \<Rightarrow>
              if cv_context2d canvas then
                p_vx q = (if p_x p + p_vx p < 0 \<or> p_x p + p_vx p > real (cv_width canvas)
                          then - p_vx p else p_vx p)
                \<and> p_vy q = (if p_y p + p_vy p < 0 \<or> p_y p + p_vy p > real (cv_height canvas)
                            then - p_vy p else p_vy p)
              else p_vx q = p_vx p \<and> p_vy q = p_vy p)"
proof (cases "canvasRef s")
  case None
  then show ?thesis by (simp add: animate_without_surface)
next
  case (Some canvas)
  show ?thesis
  proof (cases "cv_context2d canvas")
    case False
    with Some show ?thesis by (simp add: animate_without_surface)
  next
    case True
    with Some assms show ?thesis
      by (simp add: animate_particles updateParticle_def magnetism_unmoved reflect_fields
          advance_fields Let_def)
  qed
qed

text \<open>
  The amended claim at the particle leaving through the left edge.
\<close>

theorem animate_unmoved_velocity_witness:
  "\<not> m_moved (mouse edgeSim) \<and> (0::nat) < length (particles edgeSim)
   \<and> length (particles (r_state (animate quietEnv edgeSim))) = 1
   \<and> p_vx (particles (r_state (animate quietEnv edgeSim)) ! 0) = - p_vx (particles edgeSim ! 0)
   \<and> p_vy (particles (r_state (animate quietEnv edgeSim)) ! 0) = p_vy (particles edgeSim ! 0)"
proof -
  have h: "\<not> m_moved (mouse edgeSim)" "(0::nat) < length (particles edgeSim)"
    by (simp_all add: edgeSim_fields)
  show ?thesis
    using animate_unmoved_velocity [OF h, of quietEnv]
    by (simp add: edgeSim_fields edgeParticle_fields canvas800_fields Let_def)
qed

text \<open>
  Claim C9. When the canvas is absent, or its 2D context is, \<open>animate\<close> returns the
  state it was given (particles, connections, pointer and frame handle), makes no call
  on a context, requests no frame and raises nothing.
\<close>

theorem animate_no_surface_noop:
  assumes "canvasRef s = None \<or> (\<exists>c. canvasRef s = Some c \<and> \<not> cv_context2d c)"
  shows "r_state (animate env s) = s \<and> r_drawn (animate env s) = []
    \<and> r_outcome (animate env s) = Returned"
  using assms by (simp add: animate_without_surface)

text \<open>
  The claim at the initial references with no canvas attached.
\<close>

theorem animate_no_surface_noop_witness:
  "canvasRef (initialSim None) = None
   \<and> r_state (animate quietEnv (initialSim None)) = initialSim None
   \<and> r_drawn (animate quietEnv (initialSim None)) = []
   \<and> r_outcome (animate quietEnv (initialSim None)) = Returned"
proof -
  have h: "canvasRef (initialSim None) = None"
    by (simp add: initialSim_def)
  then show ?thesis
    using animate_no_surface_noop [of "initialSim None" quietEnv] by blast
qed

section \<open>The speed clamp and the place of the rebuild\<close>

lemma clamp_speed:
  fixes a b s :: real
  assumes s: "s = sqrt (a\<^sup>2 + b\<^sup>2)" and big: "s > 3"
  shows "sqrt ((a / s * 3)\<^sup>2 + (b / s * 3)\<^sup>2) = 3"
proof -
  have pos: "s > 0" using big by simp
  have s2: "s\<^sup>2 = a\<^sup>2 + b\<^sup>2"
    using s by simp
  have "(a / s * 3)\<^sup>2 + (b / s * 3)\<^sup>2 = (a\<^sup>2 + b\<^sup>2) / s\<^sup>2 * 9"
    by (simp add: power_mult_distrib power_divide add_divide_distrib)
  also have "\<dots> = 3\<^sup>2"
    using pos by (simp add: s2 [symmetric])
  finally show ?thesis
    by simp
qed

lemma magnetism_clamped:
  assumes moved: "m_moved m"
    and near: "sqrt ((m_x m - p_x p) * (m_x m - p_x p) + (m_y m - p_y p) * (m_y m - p_y p)) < 200"
  shows "sqrt ((p_vx (magnetism m p))\<^sup>2 + (p_vy (magnetism m p))\<^sup>2) \<le> 3"
proof -
  define d where "d = sqrt ((m_x m - p_x p) * (m_x m - p_x p) + (m_y m - p_y p) * (m_y m - p_y p))"
  define angle where "angle = atan2 (m_y m - p_y p) (m_x m - p_x p)"
  define a where "a = p_vx p + cos angle * (0.9 * (1 - d / 200)) * 0.2"
  define b where "b = p_vy p + sin angle * (0.9 * (1 - d / 200)) * 0.2"
  define sp where "sp = sqrt (a\<^sup>2 + b\<^sup>2)"
  have near': "d < 200"
    using near by (simp add: d_def)
  have m: "magnetism m p =
      (if sp > 3 then p\<lparr>p_vx := a / sp * 3, p_vy := b / sp * 3\<rparr> else p\<lparr>p_vx := a, p_vy := b\<rparr>)"
    unfolding magnetism_def Let_def d_def [symmetric] angle_def [symmetric]
    using moved near' by (simp add: a_def b_def sp_def)
  show ?thesis
  proof (cases "sp > 3")
    case True
    then show ?thesis
      using clamp_speed [OF sp_def True] by (simp add: m)
  next
    case False
    then show ?thesis
      by (simp add: m sp_def [symmetric])
  qed
qed

text \<open>
  Claim C4, amended. After a step with the pointer having moved, every particle that the
  step leaves within the magnetic radius (at distance less than 200 from the pointer) has
  speed \<open>sqrt (vx\<^sup>2 + vy\<^sup>2)\<close> at most 3.
\<close>

theorem magnetism_speed_clamp:
  assumes "canvasRef s = Some canvas" and "cv_context2d canvas" and "m_moved (mouse s)"
    and "i < length (particles s)"
    and "q = particles (r_state (animate env s)) ! i"
    and "sqrt ((m_x (mouse s) - p_x q) * (m_x (mouse s) - p_x q)
             + (m_y (mouse s) - p_y q) * (m_y (mouse s) - p_y q)) < 200"
  shows "sqrt ((p_vx q)\<^sup>2 + (p_vy q)\<^sup>2) \<le> 3"
proof -
  let ?r = "reflect canvas (advance (particles s ! i))"
  have q: "q = magnetism (mouse s) ?r"
    using assms by (simp add: animate_particles updateParticle_def)
  have "p_x q = p_x ?r" "p_y q = p_y ?r"
    by (simp_all add: q magnetism_position)
  with assms(6) have "sqrt ((m_x (mouse s) - p_x ?r) * (m_x (mouse s) - p_x ?r)
             + (m_y (mouse s) - p_y ?r) * (m_y (mouse s) - p_y ?r)) < 200"
    by simp
  with assms(3) show ?thesis
    unfolding q by (rule magnetism_clamped)
qed

lemma sqrt_90000: "sqrt 90000 = 300"
  by (rule real_sqrt_unique) simp_all

lemma strayParticle_fields:
  "p_x strayParticle = 153" "p_y strayParticle = 100" "p_vx strayParticle = - 3"
  "p_vy strayParticle = 0" "p_originalX strayParticle = 100" "p_originalY strayParticle = 100"
  by (simp_all add: strayParticle_def particleAt_def)

lemma pointerAt_fields: "m_x (pointerAt x y) = x" "m_y (pointerAt x y) = y" "m_moved (pointerAt x y)"
  by (simp_all add: pointerAt_def)

lemma straySim_fields:
  "canvasRef straySim = Some canvas800" "particles straySim = [strayParticle]"
  "mouse straySim = pointerAt 450 100"
  by (simp_all add: straySim_def initialSim_def)

lemma stray_update:
  "p_vx (updateParticle canvas800 (pointerAt 450 100) strayParticle) = - 3.43"
  "p_vy (updateParticle canvas800 (pointerAt 450 100) strayParticle) = 0"
  "p_x (updateParticle canvas800 (pointerAt 450 100) strayParticle) = 150"
  "p_y (updateParticle canvas800 (pointerAt 450 100) strayParticle) = 100"
  by (simp_all add: updateParticle_def magnetism_def Let_def reflect_fields advance_fields
      strayParticle_fields pointerAt_fields canvas800_fields sqrt_90000)

text \<open>
  Claim C4 says that after the magnetism phase every particle has speed at most 3, at any
  distance from the pointer. The clamp is in the branch of the particles within the
  magnetic radius only: a particle that moves towards its origin at speed 3, and that the
  step leaves 300 away from the pointer and 50 from its origin, is pulled on by the
  return force and ends the step with speed 3.43.
\<close>

theorem magnetism_speed_clamp_counterexample:
  "m_moved (mouse straySim)
   \<and> sqrt ((m_x (mouse straySim) - p_x (particles (r_state (animate quietEnv straySim)) ! 0))
            * (m_x (mouse straySim) - p_x (particles (r_state (animate quietEnv straySim)) ! 0))
          + (m_y (mouse straySim) - p_y (particles (r_state (animate quietEnv straySim)) ! 0))
            * (m_y (mouse straySim) - p_y (particles (r_state (animate quietEnv straySim)) ! 0)))
       = 300
   \<and> p_vx (particles (r_state (animate quietEnv straySim)) ! 0) = - 3.43
   \<and> p_vy (particles (r_state (animate quietEnv straySim)) ! 0) = 0
   \<and> sqrt ((p_vx (particles (r_state (animate quietEnv straySim)) ! 0))\<^sup>2
          + (p_vy (particles (r_state (animate quietEnv straySim)) ! 0))\<^sup>2) = 3.43"
proof -
  have "particles (r_state (animate quietEnv straySim)) =
        [updateParticle canvas800 (pointerAt 450 100) strayParticle]"
    by (simp add: animate_particles [of straySim canvas800] straySim_fields canvas800_fields)
  then show ?thesis
    by (simp add: stray_update straySim_fields pointerAt_fields sqrt_90000)
qed


lemma fastParticle_fields:
  "p_x fastParticle = 95" "p_y fastParticle = 100" "p_vx fastParticle = 5"
  "p_vy fastParticle = 0"
  by (simp_all add: fastParticle_def particleAt_def)

lemma chaseSim_fields:
  "canvasRef chaseSim = Some canvas800" "particles chaseSim = [fastParticle]"
  "mouse chaseSim = pointerAt 100 100"
  by (simp_all add: chaseSim_def initialSim_def)

lemma atan2_origin: "atan2 0 0 = 0"
  by (simp add: atan2_def)

lemma chase_update:
  "p_vx (updateParticle canvas800 (pointerAt 100 100) fastParticle) = 3"
  "p_vy (updateParticle canvas800 (pointerAt 100 100) fastParticle) = 0"
  "p_x (updateParticle canvas800 (pointerAt 100 100) fastParticle) = 100"
  "p_y (updateParticle canvas800 (pointerAt 100 100) fastParticle) = 100"
  by (simp_all add: updateParticle_def magnetism_def Let_def reflect_fields advance_fields
      fastParticle_fields pointerAt_fields canvas800_fields atan2_origin)

text \<open>
  The amended claim at a particle of speed 5 that the step carries onto the pointer: the
  clamp scales its velocity to \<open>(3, 0)\<close>.
\<close>

theorem magnetism_speed_clamp_witness:
  "canvasRef chaseSim = Some canvas800 \<and> cv_context2d canvas800 \<and> m_moved (mouse chaseSim)
   \<and> (0::nat) < length (particles chaseSim)
   \<and> p_x (particles (r_state (animate quietEnv chaseSim)) ! 0) = m_x (mouse chaseSim)
   \<and> p_y (particles (r_state (animate quietEnv chaseSim)) ! 0) = m_y (mouse chaseSim)
   \<and> p_vx (particles (r_state (animate quietEnv chaseSim)) ! 0) = 3
   \<and> p_vy (particles (r_state (animate quietEnv chaseSim)) ! 0) = 0
   \<and> sqrt ((p_vx (particles (r_state (animate quietEnv chaseSim)) ! 0))\<^sup>2
          + (p_vy (particles (r_state (animate quietEnv chaseSim)) ! 0))\<^sup>2) \<le> 3"
proof -
  have ps: "particles (r_state (animate quietEnv chaseSim)) =
        [updateParticle canvas800 (pointerAt 100 100) fastParticle]"
    by (simp add: animate_particles [of chaseSim canvas800] chaseSim_fields canvas800_fields)
  have h: "canvasRef chaseSim = Some canvas800" "cv_context2d canvas800" "m_moved (mouse chaseSim)"
    "(0::nat) < length (particles chaseSim)"
    by (simp_all add: chaseSim_fields canvas800_fields pointerAt_fields)
  have near: "sqrt ((m_x (mouse chaseSim) - p_x (particles (r_state (animate quietEnv chaseSim)) ! 0))
             * (m_x (mouse chaseSim) - p_x (particles (r_state (animate quietEnv chaseSim)) ! 0))
           + (m_y (mouse chaseSim) - p_y (particles (r_state (animate quietEnv chaseSim)) ! 0))
             * (m_y (mouse chaseSim) - p_y (particles (r_state (animate quietEnv chaseSim)) ! 0)))
         < 200"
    by (simp add: ps chase_update chaseSim_fields pointerAt_fields)
  have "sqrt ((p_vx (particles (r_state (animate quietEnv chaseSim)) ! 0))\<^sup>2
          + (p_vy (particles (r_state (animate quietEnv chaseSim)) ! 0))\<^sup>2) \<le> 3"
    using magnetism_speed_clamp [OF h refl near] .
  with h show ?thesis
    by (simp add: ps chase_update chaseSim_fields pointerAt_fields)
qed

lemma pairDistance_level:
  "p_y (ps ! i) = p_y (ps ! j) \<Longrightarrow> pairDistance ps i j = \<bar>p_x (ps ! i) - p_x (ps ! j)\<bar>"
  by (simp add: pairDistance_def Let_def)

lemma approach_particles_fields:
  "p_x leftParticle = 0" "p_y leftParticle = 100" "p_vx leftParticle = 0.125" "p_vy leftParticle = 0"
  "p_radius leftParticle = 1" "p_color leftParticle = Hsla 220 70 50 0.8"
  "p_x rightParticle = 150.125" "p_y rightParticle = 100" "p_vx rightParticle = - 0.125"
  "p_vy rightParticle = 0" "p_radius rightParticle = 1" "p_color rightParticle = Hsla 220 70 50 0.8"
  by (simp_all add: leftParticle_def rightParticle_def particleAt_def)

lemma updateConnections_fields:
  "canvasRef (updateConnections s) = canvasRef s" "particles (updateConnections s) = particles s"
  "mouse (updateConnections s) = mouse s"
  "animationFrameRef (updateConnections s) = animationFrameRef s"
  by (simp_all add: updateConnections_def)

lemma approachSim_fields:
  "canvasRef approachSim = Some canvas800" "particles approachSim = [leftParticle, rightParticle]"
  "\<not> m_moved (mouse approachSim)" "connections approachSim = []"
  by (simp_all add: approachSim_def initialSim_def updateConnections_directScan
      updateConnections_fields directScan_def scanFrom_def pairDistance_level
      approach_particles_fields)


lemma fireEnv_fields: "rand fireEnv = 0" "handle fireEnv = 1"
  by (simp_all add: fireEnv_def)

lemma approach_update:
  "updateParticle canvas800 (mouse approachSim) leftParticle = leftMoved"
  "updateParticle canvas800 (mouse approachSim) rightParticle = rightMoved"
  by (simp_all add: updateParticle_def magnetism_unmoved approachSim_fields reflect_def
      advance_def Let_def canvas800_fields approach_particles_fields leftMoved_def rightMoved_def)

lemma moved_fields:
  "p_x leftMoved = 0.125" "p_y leftMoved = 100" "p_radius leftMoved = 1"
  "p_color leftMoved = Hsla 220 70 50 0.8"
  "p_x rightMoved = 150" "p_y rightMoved = 100" "p_radius rightMoved = 1"
  "p_color rightMoved = Hsla 220 70 50 0.8"
  by (simp_all add: leftMoved_def rightMoved_def approach_particles_fields)

lemma approach_rescan:
  "outerLoop [leftMoved, rightMoved] 0 [] = [\<lparr>c_from = 0, c_to = 1, c_distance = 149.875\<rparr>]"
  by (simp add: outerLoop_scan scanFrom_def pairDistance_level moved_fields)

lemma approach_discs:
  "drawParticles [leftMoved, rightMoved] =
     ([BeginPath, Arc 0.125 100 1 0 (pi * 2), SetFillStyle (Hsla 220 70 50 0.8), Fill,
       BeginPath, Arc 150 100 1 0 (pi * 2), SetFillStyle (Hsla 220 70 50 0.8), Fill], None)"
  by (simp add: moved_fields)

lemma approach_animate:
  "animate fireEnv approachSim =
     \<lparr>r_state = approachSim
        \<lparr>particles := [leftMoved, rightMoved],
         connections := [\<lparr>c_from = 0, c_to = 1, c_distance = 149.875\<rparr>],
         animationFrameRef := Some 1\<rparr>,
      r_drawn =
        [SetFillStyle (Named ''black''), FillRect 0 0 800 600, SetLineWidth 0.3,
         BeginPath, Arc 0.125 100 1 0 (pi * 2), SetFillStyle (Hsla 220 70 50 0.8), Fill,
         BeginPath, Arc 150 100 1 0 (pi * 2), SetFillStyle (Hsla 220 70 50 0.8), Fill],
      r_outcome = Rescheduled\<rparr>"
  unfolding animate_def
  by (simp add: approachSim_fields canvas800_fields approach_update approach_discs Let_def
      fireEnv_def updateConnections_def approach_rescan
      del: drawParticles.simps)

text \<open>
  Claim C6 says that the rebuild comes before the draw pass, so that on a frame where it
  fires the connections drawn are those of the updated positions. In \<open>animate\<close> the
  rebuild is the last statement before the next frame is requested. The two approaching
  particles are not connected before the frame and are at distance 149.875 after the
  update; the rebuild fires and stores their connection, with which the draw pass would
  have drawn a line, and the frame draws the two discs and no line.
\<close>

theorem rebuild_before_draw_counterexample:
  "rand fireEnv < 0.05
   \<and> connections approachSim = []
   \<and> r_outcome (animate fireEnv approachSim) = Rescheduled
   \<and> particles (r_state (animate fireEnv approachSim)) = [leftMoved, rightMoved]
   \<and> connections (r_state (animate fireEnv approachSim)) =
       [\<lparr>c_from = 0, c_to = 1, c_distance = 149.875\<rparr>]
   \<and> fst (drawConnections (particles (r_state (animate fireEnv approachSim)))
            (connections (r_state (animate fireEnv approachSim)))) =
       [BeginPath, MoveTo 0.125 100, LineTo 150 100,
        SetStrokeStyle (Rgba 255 255 255 ((1 - 149.875 / 150) * 0.2)), Stroke]
   \<and> r_drawn (animate fireEnv approachSim) =
       [SetFillStyle (Named ''black''), FillRect 0 0 800 600, SetLineWidth 0.3,
        BeginPath, Arc 0.125 100 1 0 (pi * 2), SetFillStyle (Hsla 220 70 50 0.8), Fill,
        BeginPath, Arc 150 100 1 0 (pi * 2), SetFillStyle (Hsla 220 70 50 0.8), Fill]"
  by (simp add: approach_animate approachSim_fields moved_fields fireEnv_fields)

text \<open>
  Claim C6, amended. Within a step the rebuild occurs after all particles have been
  updated and after the draw pass: a frame that runs to its end draws the lines of the
  connections cached before the step, between the updated positions, and then, when the
  draw of \<open>Math.random()\<close> is below 0.05, stores the connections computed from the
  updated positions; otherwise it keeps the cached ones.
\<close>

theorem animate_draws_cached_connections:
  assumes "canvasRef s = Some canvas" and "cv_context2d canvas"
    and "r_outcome (animate env s) = Rescheduled"
  shows "let ps = map (updateParticle canvas (mouse s)) (particles s)
    in particles (r_state (animate env s)) = ps
     \<and> r_drawn (animate env s) =
         [SetFillStyle (Named ''black''),
          FillRect 0 0 (real (cv_width canvas)) (real (cv_height canvas)), SetLineWidth 0.3]
         @ fst (drawConnections ps (connections s)) @ fst (drawParticles ps)
     \<and> connections (r_state (animate env s)) =
         (if rand env < 0.05 then connections (updateConnections (s\<lparr>particles := ps\<rparr>))
          else connections s)"
  using assms
  by (simp add: animate_def Let_def updateConnections_def split: prod.splits option.splits)

text \<open>
  The amended claim at the two approaching particles, on a frame where the rebuild fires.
\<close>

theorem animate_draws_cached_connections_witness:
  "canvasRef approachSim = Some canvas800 \<and> cv_context2d canvas800
   \<and> r_outcome (animate fireEnv approachSim) = Rescheduled
   \<and> rand fireEnv < 0.05
   \<and> particles (r_state (animate fireEnv approachSim)) = [leftMoved, rightMoved]
   \<and> r_drawn (animate fireEnv approachSim) =
       [SetFillStyle (Named ''black''), FillRect 0 0 800 600, SetLineWidth 0.3]
       @ fst (drawConnections [leftMoved, rightMoved] (connections approachSim))
       @ fst (drawParticles [leftMoved, rightMoved])
   \<and> connections (r_state (animate fireEnv approachSim)) =
       connections (updateConnections (approachSim\<lparr>particles := [leftMoved, rightMoved]\<rparr>))"
proof -
  have h: "canvasRef approachSim = Some canvas800" "cv_context2d canvas800"
    "r_outcome (animate fireEnv approachSim) = Rescheduled"
    by (simp_all add: approachSim_fields canvas800_fields approach_animate)
  have r: "rand fireEnv < 0.05"
    by (simp add: fireEnv_def)
  have ps: "map (updateParticle canvas800 (mouse approachSim)) (particles approachSim) =
      [leftMoved, rightMoved]"
    by (simp add: approachSim_fields approach_update)
  from animate_draws_cached_connections [OF h] r h show ?thesis
    unfolding Let_def ps canvas800_fields by simp
qed

section \<open>The initializer and the empty simulation\<close>

lemma length_createParticles: "length (createParticles rnd k c n) = n"
  by (induction n arbitrary: k) simp_all

lemma nth_createParticles:
  "i < n \<Longrightarrow> createParticles rnd k c n ! i = newParticle rnd (k + 8 * i) c"
proof (induction n arbitrary: k i)
  case 0
  then show ?case by simp
next
  case (Suc n)
  then show ?case
    by (cases i) (simp_all add: algebra_simps)
qed

lemma createParticles_mem:
  "p \<in> set (createParticles rnd k c n) \<Longrightarrow> \<exists>j. p = newParticle rnd j c"
  by (induction n arbitrary: k) auto

lemma particleCount_div: "particleCount c = cv_width c * cv_height c div 8000"
proof -
  have "\<lfloor>real (cv_width c * cv_height c) / real 8000\<rfloor> = int (cv_width c * cv_height c div 8000)"
    by (rule floor_divide_of_nat_eq)
  then show ?thesis
    by (simp add: particleCount_def)
qed

lemma newParticle_fields:
  "p_x (newParticle rnd k c) = rnd k * real (cv_width c)"
  "p_y (newParticle rnd k c) = rnd (k + 1) * real (cv_height c)"
  "p_vx (newParticle rnd k c) = (rnd (k + 2) - 0.5) * 0.3"
  "p_vy (newParticle rnd k c) = (rnd (k + 3) - 0.5) * 0.3"
  "p_radius (newParticle rnd k c) = rnd (k + 4) * 2.5 + 1"
  "p_originalX (newParticle rnd k c) = rnd k * real (cv_width c)"
  "p_originalY (newParticle rnd k c) = rnd (k + 1) * real (cv_height c)"
  by (simp_all add: newParticle_def Let_def)

lemma newParticle_ranges:
  assumes rnd: "\<forall>k. 0 \<le> rnd k \<and> rnd k < 1" and w: "0 < cv_width c" and h: "0 < cv_height c"
  shows "0 \<le> p_x (newParticle rnd k c) \<and> p_x (newParticle rnd k c) < real (cv_width c)
    \<and> 0 \<le> p_y (newParticle rnd k c) \<and> p_y (newParticle rnd k c) < real (cv_height c)
    \<and> - 0.15 \<le> p_vx (newParticle rnd k c) \<and> p_vx (newParticle rnd k c) \<le> 0.15
    \<and> - 0.15 \<le> p_vy (newParticle rnd k c) \<and> p_vy (newParticle rnd k c) \<le> 0.15
    \<and> 1 \<le> p_radius (newParticle rnd k c) \<and> p_radius (newParticle rnd k c) \<le> 3.5
    \<and> p_originalX (newParticle rnd k c) = p_x (newParticle rnd k c)
    \<and> p_originalY (newParticle rnd k c) = p_y (newParticle rnd k c)"
proof -
  have r: "\<And>j. 0 \<le> rnd j" "\<And>j. rnd j < 1"
    using rnd by auto
  have x: "rnd k * real (cv_width c) < real (cv_width c)"
    using r(2) [of k] w by simp
  have y: "rnd (k + 1) * real (cv_height c) < real (cv_height c)"
    using r(2) [of "k + 1"] h by simp
  show ?thesis
    using r(1) [of k] r(1) [of "k + 1"] r(1) [of "k + 2"] r(2) [of "k + 2"]
      r(1) [of "k + 3"] r(2) [of "k + 3"] r(1) [of "k + 4"] r(2) [of "k + 4"] x y
    by (simp add: newParticle_fields)
qed

lemma populate_fields:
  "particles (populate rnd W H canvas s) =
     createParticles rnd 0 (canvas\<lparr>cv_width := W, cv_height := H\<rparr>)
       (particleCount (canvas\<lparr>cv_width := W, cv_height := H\<rparr>))"
  "canvasRef (populate rnd W H canvas s) = Some (canvas\<lparr>cv_width := W, cv_height := H\<rparr>)"
  "mouse (populate rnd W H canvas s) = mouse s"
  "connections (populate rnd W H canvas s) = connections s"
  by (simp_all add: populate_def Let_def)

text \<open>
  Claim C2. For every window width \<open>W\<close> and height \<open>H\<close>, and every random source with
  draws in \<open>[0, 1)\<close>, the initializer creates exactly \<open>floor (W * H / 8000)\<close>
  particles, each with its position in \<open>[0, W) \<times> [0, H)\<close>, both velocity components in
  \<open>[-0.15, 0.15]\<close>, its radius in \<open>[1, 3.5]\<close> and its origin equal to its position.
\<close>

theorem populate_particles:
  assumes "\<forall>k. 0 \<le> rnd k \<and> rnd k < 1"
  shows "length (particles (populate rnd W H canvas s)) = nat \<lfloor>real (W * H) / 8000\<rfloor>
    \<and> length (particles (populate rnd W H canvas s)) = W * H div 8000
    \<and> (\<forall>p \<in> set (particles (populate rnd W H canvas s)).
          0 \<le> p_x p \<and> p_x p < real W \<and> 0 \<le> p_y p \<and> p_y p < real H
          \<and> - 0.15 \<le> p_vx p \<and> p_vx p \<le> 0.15 \<and> - 0.15 \<le> p_vy p \<and> p_vy p \<le> 0.15
          \<and> 1 \<le> p_radius p \<and> p_radius p \<le> 3.5
          \<and> p_originalX p = p_x p \<and> p_originalY p = p_y p)"
proof (intro conjI ballI)
  let ?c = "canvas\<lparr>cv_width := W, cv_height := H\<rparr>"
  show len: "length (particles (populate rnd W H canvas s)) = W * H div 8000"
    by (simp add: populate_fields length_createParticles particleCount_div)
  show "length (particles (populate rnd W H canvas s)) = nat \<lfloor>real (W * H) / 8000\<rfloor>"
    by (simp add: populate_fields length_createParticles particleCount_def)
  fix p assume p: "p \<in> set (particles (populate rnd W H canvas s))"
  then have "particles (populate rnd W H canvas s) \<noteq> []"
    by auto
  with len have "0 < W * H div 8000"
    by (metis length_greater_0_conv)
  then have "0 < W * H"
    by (metis div_0 neq0_conv)
  then have pos: "0 < cv_width ?c" "0 < cv_height ?c"
    by simp_all
  from p obtain j where j: "p = newParticle rnd j ?c"
    unfolding populate_fields by (blast dest: createParticles_mem)
  note rg = newParticle_ranges [OF assms pos, of j, folded j]
  from rg show "0 \<le> p_x p" by simp
  from rg show "p_x p < real W" by simp
  from rg show "0 \<le> p_y p" by simp
  from rg show "p_y p < real H" by simp
  from rg show "- 0.15 \<le> p_vx p" by simp
  from rg show "p_vx p \<le> 0.15" by simp
  from rg show "- 0.15 \<le> p_vy p" by simp
  from rg show "p_vy p \<le> 0.15" by simp
  from rg show "1 \<le> p_radius p" by simp
  from rg show "p_radius p \<le> 3.5" by simp
  from rg show "p_originalX p = p_x p" by simp
  from rg show "p_originalY p = p_y p" by simp
qed


lemma halves_range: "\<forall>k. 0 \<le> halves k \<and> halves k < 1"
  by (simp add: halves_def)

lemma smallSim_first:
  "particles smallSim ! 0 = newParticle halves 0 (canvas800\<lparr>cv_width := 200, cv_height := 100\<rparr>)"
proof -
  have "particleCount (canvas800\<lparr>cv_width := 200, cv_height := 100\<rparr>) = 2"
    by (simp add: particleCount_div)
  then show ?thesis
    by (simp add: smallSim_def populate_fields nth_createParticles)
qed

text \<open>
  The claim at a window of 200 by 100 with every draw 0.5: two particles, the first at
  \<open>(100, 50)\<close>.
\<close>

theorem populate_particles_witness:
  "(\<forall>k. 0 \<le> halves k \<and> halves k < 1)
   \<and> length (particles smallSim) = 2
   \<and> p_x (particles smallSim ! 0) = 100 \<and> p_y (particles smallSim ! 0) = 50
   \<and> 0 \<le> p_x (particles smallSim ! 0) \<and> p_x (particles smallSim ! 0) < real (200::nat)
   \<and> 0 \<le> p_y (particles smallSim ! 0) \<and> p_y (particles smallSim ! 0) < real (100::nat)
   \<and> - 0.15 \<le> p_vx (particles smallSim ! 0) \<and> p_vx (particles smallSim ! 0) \<le> 0.15
   \<and> 1 \<le> p_radius (particles smallSim ! 0) \<and> p_radius (particles smallSim ! 0) \<le> 3.5
   \<and> p_originalX (particles smallSim ! 0) = p_x (particles smallSim ! 0)"
proof -
  note t = populate_particles [OF halves_range, of 200 100 canvas800 "initialSim (Some canvas800)",
      folded smallSim_def]
  from t have len: "length (particles smallSim) = 2"
    by simp
  then have "particles smallSim ! 0 \<in> set (particles smallSim)"
    by simp
  with t have "0 \<le> p_x (particles smallSim ! 0) \<and> p_x (particles smallSim ! 0) < real (200::nat)
   \<and> 0 \<le> p_y (particles smallSim ! 0) \<and> p_y (particles smallSim ! 0) < real (100::nat)
   \<and> - 0.15 \<le> p_vx (particles smallSim ! 0) \<and> p_vx (particles smallSim ! 0) \<le> 0.15
   \<and> 1 \<le> p_radius (particles smallSim ! 0) \<and> p_radius (particles smallSim ! 0) \<le> 3.5
   \<and> p_originalX (particles smallSim ! 0) = p_x (particles smallSim ! 0)"
    by blast
  moreover have "p_x (particles smallSim ! 0) = 100" "p_y (particles smallSim ! 0) = 50"
    by (simp_all add: smallSim_first newParticle_fields halves_def)
  ultimately show ?thesis
    using len halves_range by blast
qed

lemma outerLoop_empty: "outerLoop [] 0 [] = []"
  by (simp add: outerLoop_scan)

lemma animate_empty:
  assumes "particles s = []" and "connections s = []"
  shows "particles (r_state (animate env s)) = [] \<and> connections (r_state (animate env s)) = []
    \<and> r_outcome (animate env s) \<in> {Returned, Rescheduled}"
  using assms
  by (simp add: animate_def Let_def updateConnections_def outerLoop_empty split: option.splits)

lemma dispatch_empty:
  assumes "particles s = []" and "connections s = []"
  shows "particles (r_state (dispatch ev s)) = [] \<and> connections (r_state (dispatch ev s)) = []
    \<and> r_outcome (dispatch ev s) \<in> {Returned, Rescheduled}"
proof (cases ev)
  case (Frame env)
  then show ?thesis
    using animate_empty [OF assms, of env] by simp
next
  case (MouseMove cx cy)
  then show ?thesis
    using assms by (simp add: handleMouseMove_def)
qed

lemma run_empty:
  assumes "particles s = []" and "connections s = []"
  shows "particles (run evs s) = [] \<and> connections (run evs s) = []
    \<and> set (outcomes evs s) \<subseteq> {Returned, Rescheduled}"
  using assms
proof (induction evs arbitrary: s)
  case Nil
  then show ?case by simp
next
  case (Cons ev evs)
  note d = dispatch_empty [OF Cons.prems, of ev]
  from d have "particles (r_state (dispatch ev s)) = []" "connections (r_state (dispatch ev s)) = []"
    by simp_all
  from Cons.IH [OF this] d show ?case
    by (simp add: Let_def)
qed

lemma initializer_small:
  assumes "innerWidth * innerHeight < 8000"
  shows "particles (r_state (initializer rnd innerWidth innerHeight h (initialSim c))) = []
    \<and> connections (r_state (initializer rnd innerWidth innerHeight h (initialSim c))) = []
    \<and> r_outcome (initializer rnd innerWidth innerHeight h (initialSim c)) \<in> {Returned, Rescheduled}"
proof (cases c)
  case None
  then show ?thesis
    by (simp add: initializer_def initialSim_def)
next
  case (Some canvas)
  let ?s = "updateConnections (populate rnd innerWidth innerHeight canvas (initialSim c))"
  have cnt: "particleCount (canvas\<lparr>cv_width := innerWidth, cv_height := innerHeight\<rparr>) = 0"
    using assms by (simp add: particleCount_div)
  have ps: "particles ?s = []"
    by (simp add: updateConnections_fields populate_fields cnt)
  then have cs: "connections ?s = []"
    by (simp add: updateConnections_directScan directScan_def updateConnections_fields)
  have "initializer rnd innerWidth innerHeight h (initialSim c) =
      animate \<lparr>rand = rnd (8 * length (particles (populate rnd innerWidth innerHeight canvas (initialSim c)))),
               handle = h\<rparr> ?s"
    using Some by (simp add: initializer_def initialSim_def Let_def)
  then show ?thesis
    using animate_empty [OF ps cs] by simp
qed

text \<open>
  Claim C8. For a window of zero area, and for any window of area below 8000, where the
  particle count is 0, the mount effect leaves an empty particle collection and an empty
  connection set and raises nothing; and in every run from that state, of invocations of
  \<open>animate\<close> and pointer events in any order, both collections stay empty and no
  invocation raises an error.
\<close>

theorem zero_area_never_throws:
  assumes "innerWidth * innerHeight < 8000"
  shows "particles (r_state (initializer rnd innerWidth innerHeight h (initialSim c))) = []
    \<and> connections (r_state (initializer rnd innerWidth innerHeight h (initialSim c))) = []
    \<and> r_outcome (initializer rnd innerWidth innerHeight h (initialSim c)) \<in> {Returned, Rescheduled}
    \<and> particles (run evs (r_state (initializer rnd innerWidth innerHeight h (initialSim c)))) = []
    \<and> connections (run evs (r_state (initializer rnd innerWidth innerHeight h (initialSim c)))) = []
    \<and> set (outcomes evs (r_state (initializer rnd innerWidth innerHeight h (initialSim c))))
        \<subseteq> {Returned, Rescheduled}"
proof -
  note i = initializer_small [OF assms, of rnd h c]
  from i have "particles (r_state (initializer rnd innerWidth innerHeight h (initialSim c))) = []"
    "connections (r_state (initializer rnd innerWidth innerHeight h (initialSim c))) = []"
    by simp_all
  from run_empty [OF this, of evs] i show ?thesis
    by simp
qed

text \<open>
  The claim at a window of width 0: the mount effect and two later frames each run to
  their end and request the next frame.
\<close>

theorem zero_area_never_throws_witness:
  "(0::nat) * 600 < 8000
   \<and> particles emptySim = [] \<and> connections emptySim = []
   \<and> r_outcome (initializer halves 0 600 1 (initialSim (Some canvas800))) = Rescheduled
   \<and> particles (run [Frame quietEnv, MouseMove 10 10, Frame fireEnv] emptySim) = []
   \<and> connections (run [Frame quietEnv, MouseMove 10 10, Frame fireEnv] emptySim) = []
   \<and> outcomes [Frame quietEnv, MouseMove 10 10, Frame fireEnv] emptySim =
       [Rescheduled, Returned, Rescheduled]"
proof -
  have h: "(0::nat) * 600 < 8000"
    by simp
  note t = zero_area_never_throws [OF h, of halves 1 "Some canvas800"
      "[Frame quietEnv, MouseMove 10 10, Frame fireEnv]", folded emptySim_def]
  have e: "emptySim = (initialSim (Some (canvas800\<lparr>cv_width := 0, cv_height := 600\<rparr>)))
      \<lparr>animationFrameRef := Some 1\<rparr>"
    "r_outcome (initializer halves 0 600 1 (initialSim (Some canvas800))) = Rescheduled"
    by (simp_all add: emptySim_def initializer_def populate_def particleCount_div Let_def
        initialSim_def updateConnections_def outerLoop_empty animate_def canvas800_def)
  have o: "outcomes [Frame quietEnv, MouseMove 10 10, Frame fireEnv] emptySim =
       [Rescheduled, Returned, Rescheduled]"
    unfolding e
    by (simp add: Let_def animate_def initialSim_def updateConnections_def outerLoop_empty
        handleMouseMove_def canvas800_def)
  from t e(2) o show ?thesis
    using h by blast
qed

section \<open>The scenario of a window of 800 by 600\<close>

lemma withinReach_step:
  assumes "withinReach W x v" and "0 \<le> W"
  shows "withinReach W (x + v) (if x + v < 0 \<or> x + v > W then - v else v)"
  using assms unfolding withinReach_def by (auto simp: abs_le_iff)

lemma withinReach_bound:
  assumes "withinReach W x v" and "0 \<le> W"
  shows "- 0.15 \<le> x \<and> x \<le> W + 0.15"
  using assms unfolding withinReach_def by (auto simp: abs_le_iff)

lemma withinReach_back:
  assumes "withinReach W x v" and "0.15 \<le> W" and "x < 0 \<or> W < x"
  shows "0 \<le> x + v \<and> x + v \<le> W"
  using assms unfolding withinReach_def by (auto simp: abs_le_iff)

lemma withinReach_excess:
  assumes "withinReach W x v" and "0 \<le> W"
  shows "\<bar>v\<bar> \<le> 0.15 \<and> (x < 0 \<longrightarrow> - x \<le> \<bar>v\<bar>) \<and> (W < x \<longrightarrow> x - W \<le> \<bar>v\<bar>)"
  using assms unfolding withinReach_def by (auto simp: abs_le_iff)

lemma updateParticle_unmoved:
  "\<not> m_moved m \<Longrightarrow> updateParticle c m p = reflect c (advance p)"
  by (simp add: updateParticle_def magnetism_unmoved)

lemma particleWithinReach_step:
  assumes "particleWithinReach c p" and "\<not> m_moved m"
  shows "particleWithinReach c (updateParticle c m p)"
proof -
  let ?q = "updateParticle c m p"
  have x: "withinReach (real (cv_width c)) (p_x p) (p_vx p)"
    and y: "withinReach (real (cv_height c)) (p_y p) (p_vy p)"
    using assms(1) by (simp_all add: particleWithinReach_def)
  have q: "p_x ?q = p_x p + p_vx p" "p_y ?q = p_y p + p_vy p"
    "p_vx ?q = (if p_x p + p_vx p < 0 \<or> p_x p + p_vx p > real (cv_width c)
                then - p_vx p else p_vx p)"
    "p_vy ?q = (if p_y p + p_vy p < 0 \<or> p_y p + p_vy p > real (cv_height c)
                then - p_vy p else p_vy p)"
    by (simp_all add: updateParticle_unmoved [OF assms(2)] reflect_fields advance_fields)
  show ?thesis
    unfolding particleWithinReach_def q
    using withinReach_step [OF x of_nat_0_le_iff] withinReach_step [OF y of_nat_0_le_iff]
    by blast
qed

lemma animate_length: "length (particles (r_state (animate env s))) = length (particles s)"
  by (simp add: animate_def Let_def updateConnections_def split: prod.splits option.splits)

lemma animate_reach:
  assumes "canvasRef s = Some c" and "\<not> m_moved (mouse s)"
    and "\<forall>p \<in> set (particles s). particleWithinReach c p"
  shows "\<forall>p \<in> set (particles (r_state (animate env s))). particleWithinReach c p"
proof (cases "cv_context2d c")
  case True
  then show ?thesis
    using assms by (auto simp: animate_particles particleWithinReach_step)
next
  case False
  then show ?thesis
    using assms by (simp add: animate_without_surface)
qed

lemma run_frames_reach:
  assumes "canvasRef s = Some c" and "\<not> m_moved (mouse s)"
    and "\<forall>p \<in> set (particles s). particleWithinReach c p"
  shows "canvasRef (run (map Frame envs) s) = Some c \<and> \<not> m_moved (mouse (run (map Frame envs) s))
    \<and> length (particles (run (map Frame envs) s)) = length (particles s)
    \<and> (\<forall>p \<in> set (particles (run (map Frame envs) s)). particleWithinReach c p)"
  using assms
proof (induction envs arbitrary: s)
  case Nil
  then show ?case by simp
next
  case (Cons env envs)
  have 1: "canvasRef (r_state (animate env s)) = Some c"
    using Cons.prems(1) by (simp add: animate_canvasRef)
  have 2: "\<not> m_moved (mouse (r_state (animate env s)))"
    using Cons.prems(2) by (simp add: animate_mouse)
  have 3: "\<forall>p \<in> set (particles (r_state (animate env s))). particleWithinReach c p"
    using Cons.prems by (rule animate_reach)
  from Cons.IH [OF 1 2 3] show ?case
    by (simp add: animate_length)
qed

lemma populate_reach:
  assumes "\<forall>k. 0 \<le> rnd k \<and> rnd k < 1"
  shows "\<forall>p \<in> set (particles (populate rnd W H canvas s)).
           particleWithinReach (canvas\<lparr>cv_width := W, cv_height := H\<rparr>) p"
proof
  fix p assume p: "p \<in> set (particles (populate rnd W H canvas s))"
  then have "particles (populate rnd W H canvas s) \<noteq> []"
    by auto
  then have "0 < W * H div 8000"
    by (simp add: populate_fields particleCount_div length_createParticles
        flip: length_greater_0_conv)
  then have "0 < W * H"
    by (metis div_0 neq0_conv)
  then have pos: "0 < cv_width (canvas\<lparr>cv_width := W, cv_height := H\<rparr>)"
    "0 < cv_height (canvas\<lparr>cv_width := W, cv_height := H\<rparr>)"
    by simp_all
  from p obtain j where j: "p = newParticle rnd j (canvas\<lparr>cv_width := W, cv_height := H\<rparr>)"
    unfolding populate_fields by (blast dest: createParticles_mem)
  note rg = newParticle_ranges [OF assms pos, of j, folded j]
  have v: "\<bar>p_vx p\<bar> \<le> 0.15" "\<bar>p_vy p\<bar> \<le> 0.15"
    using rg by linarith+
  have xy: "0 \<le> p_x p" "p_x p \<le> real W" "0 \<le> p_y p" "p_y p \<le> real H"
    using rg by simp_all
  show "particleWithinReach (canvas\<lparr>cv_width := W, cv_height := H\<rparr>) p"
    unfolding particleWithinReach_def withinReach_def
    using v xy by simp
qed

lemma initializer_reach:
  assumes "\<forall>k. 0 \<le> rnd k \<and> rnd k < 1"
  shows "canvasRef (r_state (initializer rnd W H h (initialSim (Some canvas)))) =
      Some (canvas\<lparr>cv_width := W, cv_height := H\<rparr>)
    \<and> \<not> m_moved (mouse (r_state (initializer rnd W H h (initialSim (Some canvas)))))
    \<and> length (particles (r_state (initializer rnd W H h (initialSim (Some canvas))))) =
        W * H div 8000
    \<and> (\<forall>p \<in> set (particles (r_state (initializer rnd W H h (initialSim (Some canvas))))).
          particleWithinReach (canvas\<lparr>cv_width := W, cv_height := H\<rparr>) p)"
proof -
  let ?c = "canvas\<lparr>cv_width := W, cv_height := H\<rparr>"
  let ?s = "updateConnections (populate rnd W H canvas (initialSim (Some canvas)))"
  have init: "initializer rnd W H h (initialSim (Some canvas)) =
      animate \<lparr>rand = rnd (8 * length (particles (populate rnd W H canvas (initialSim (Some canvas))))),
               handle = h\<rparr> ?s"
    by (simp add: initializer_def initialSim_def Let_def)
  have 1: "canvasRef ?s = Some ?c"
    by (simp add: updateConnections_fields populate_fields)
  have 2: "\<not> m_moved (mouse ?s)"
    by (simp add: updateConnections_fields populate_fields initialSim_def)
  have 3: "\<forall>p \<in> set (particles ?s). particleWithinReach ?c p"
    using populate_reach [OF assms(1)] by (simp add: updateConnections_fields)
  have 4: "length (particles ?s) = W * H div 8000"
    by (simp add: updateConnections_fields populate_fields length_createParticles particleCount_div)
  show ?thesis
    unfolding init
    using animate_reach [OF 1 2 3] 1 2 4
    by (simp add: animate_canvasRef animate_mouse animate_length)
qed

text \<open>
  Claim C7, amended. For a window of 800 by 600 the initializer creates exactly 60
  particles; and if the pointer never moves then, after 1000 invocations of \<open>animate\<close>
  and after any other number of them, there are 60 particles, every one of them at a
  position within \<open>[-0.15, 800.15] \<times> [-0.15, 600.15]\<close>: a particle can be outside the
  window, in a coordinate, by at most one advance of at most 0.15, and for one frame,
  since the next \<open>animate\<close> that has a drawing surface brings that coordinate back
  within the window; and the connections recomputed from these positions are exactly the
  pairs of the direct all-pairs scan, and as many.
\<close>

theorem drift_800_600:
  assumes "\<forall>k. 0 \<le> rnd k \<and> rnd k < 1"
  shows "let s = run (map Frame envs) (r_state (initializer rnd 800 600 h (initialSim (Some canvas))))
    in length (particles (populate rnd 800 600 canvas (initialSim (Some canvas)))) = 60
     \<and> length (particles s) = 60
     \<and> (\<forall>p \<in> set (particles s).
           - 0.15 \<le> p_x p \<and> p_x p \<le> 800.15 \<and> - 0.15 \<le> p_y p \<and> p_y p \<le> 600.15
           \<and> \<bar>p_vx p\<bar> \<le> 0.15 \<and> \<bar>p_vy p\<bar> \<le> 0.15
           \<and> (p_x p < 0 \<longrightarrow> - p_x p \<le> \<bar>p_vx p\<bar>) \<and> (800 < p_x p \<longrightarrow> p_x p - 800 \<le> \<bar>p_vx p\<bar>)
           \<and> (p_y p < 0 \<longrightarrow> - p_y p \<le> \<bar>p_vy p\<bar>) \<and> (600 < p_y p \<longrightarrow> p_y p - 600 \<le> \<bar>p_vy p\<bar>))
     \<and> (cv_context2d canvas \<longrightarrow>
          (\<forall>i < 60.
             let p = particles s ! i; q = particles (r_state (animate env s)) ! i
             in (p_x p < 0 \<or> 800 < p_x p \<longrightarrow> 0 \<le> p_x q \<and> p_x q \<le> 800)
              \<and> (p_y p < 0 \<or> 600 < p_y p \<longrightarrow> 0 \<le> p_y q \<and> p_y q \<le> 600)))
     \<and> set (connections (updateConnections s)) =
         (\<lambda>(i, j). \<lparr>c_from = i, c_to = j,
                     c_distance = euclidean (particles s ! i) (particles s ! j)\<rparr>)
           ` closePairs (particles s)
     \<and> length (connections (updateConnections s)) = card (closePairs (particles s))"
proof -
  let ?c = "canvas\<lparr>cv_width := 800, cv_height := 600\<rparr>"
  let ?start = "r_state (initializer rnd 800 600 h (initialSim (Some canvas)))"
  let ?s = "run (map Frame envs) ?start"
  note i = initializer_reach [OF assms, where canvas = canvas and W = 800 and H = 600 and h = h]
  from i have i1: "canvasRef ?start = Some ?c"
    by blast
  from i have i2: "\<not> m_moved (mouse ?start)"
    by blast
  from i have i3: "\<forall>p \<in> set (particles ?start). particleWithinReach ?c p"
    by blast
  from i have "length (particles ?start) = 800 * 600 div 8000"
    by blast
  then have i4: "length (particles ?start) = 60"
    by simp
  note r = run_frames_reach [OF i1 i2 i3, of envs]
  have len: "length (particles ?s) = 60"
    using r i4 by simp
  have reach: "withinReach 800 (p_x p) (p_vx p) \<and> withinReach 600 (p_y p) (p_vy p)"
    if "p \<in> set (particles ?s)" for p
  proof -
    from that r have "particleWithinReach ?c p"
      by blast
    then show ?thesis
      by (simp add: particleWithinReach_def)
  qed
  have bounds: "\<forall>p \<in> set (particles ?s).
      - 0.15 \<le> p_x p \<and> p_x p \<le> 800.15 \<and> - 0.15 \<le> p_y p \<and> p_y p \<le> 600.15
      \<and> \<bar>p_vx p\<bar> \<le> 0.15 \<and> \<bar>p_vy p\<bar> \<le> 0.15
      \<and> (p_x p < 0 \<longrightarrow> - p_x p \<le> \<bar>p_vx p\<bar>) \<and> (800 < p_x p \<longrightarrow> p_x p - 800 \<le> \<bar>p_vx p\<bar>)
      \<and> (p_y p < 0 \<longrightarrow> - p_y p \<le> \<bar>p_vy p\<bar>) \<and> (600 < p_y p \<longrightarrow> p_y p - 600 \<le> \<bar>p_vy p\<bar>)"
  proof
    fix p assume "p \<in> set (particles ?s)"
    from reach [OF this]
    have x: "withinReach 800 (p_x p) (p_vx p)" and y: "withinReach 600 (p_y p) (p_vy p)"
      by simp_all
    from withinReach_bound [OF x] withinReach_bound [OF y]
      withinReach_excess [OF x] withinReach_excess [OF y]
    show "- 0.15 \<le> p_x p \<and> p_x p \<le> 800.15 \<and> - 0.15 \<le> p_y p \<and> p_y p \<le> 600.15
      \<and> \<bar>p_vx p\<bar> \<le> 0.15 \<and> \<bar>p_vy p\<bar> \<le> 0.15
      \<and> (p_x p < 0 \<longrightarrow> - p_x p \<le> \<bar>p_vx p\<bar>) \<and> (800 < p_x p \<longrightarrow> p_x p - 800 \<le> \<bar>p_vx p\<bar>)
      \<and> (p_y p < 0 \<longrightarrow> - p_y p \<le> \<bar>p_vy p\<bar>) \<and> (600 < p_y p \<longrightarrow> p_y p - 600 \<le> \<bar>p_vy p\<bar>)"
      by simp
  qed
  have inside: "cv_context2d canvas \<longrightarrow>
      (\<forall>i < 60.
         let p = particles ?s ! i; q = particles (r_state (animate env ?s)) ! i
         in (p_x p < 0 \<or> 800 < p_x p \<longrightarrow> 0 \<le> p_x q \<and> p_x q \<le> 800)
          \<and> (p_y p < 0 \<or> 600 < p_y p \<longrightarrow> 0 \<le> p_y q \<and> p_y q \<le> 600))"
  proof (intro impI allI)
    fix i :: nat
    assume ctx: "cv_context2d canvas" and i: "i < 60"
    let ?p = "particles ?s ! i"
    let ?q = "particles (r_state (animate env ?s)) ! i"
    from r have c: "canvasRef ?s = Some ?c"
      by blast
    have ctx': "cv_context2d ?c"
      using ctx by simp
    have q: "?q = updateParticle ?c (mouse ?s) ?p"
      using i len by (simp add: animate_particles [OF c ctx'])
    have pos: "p_x ?q = p_x ?p + p_vx ?p" "p_y ?q = p_y ?p + p_vy ?p"
      by (simp_all add: q updateParticle_position)
    have "?p \<in> set (particles ?s)"
      using i len by simp
    from reach [OF this]
    have x: "withinReach 800 (p_x ?p) (p_vx ?p)" and y: "withinReach 600 (p_y ?p) (p_vy ?p)"
      by simp_all
    have bx: "p_x ?p < 0 \<or> 800 < p_x ?p \<longrightarrow> 0 \<le> p_x ?q \<and> p_x ?q \<le> 800"
      unfolding pos using withinReach_back [OF x] by simp
    have "by": "p_y ?p < 0 \<or> 600 < p_y ?p \<longrightarrow> 0 \<le> p_y ?q \<and> p_y ?q \<le> 600"
      unfolding pos using withinReach_back [OF y] by simp
    from bx "by"
    show "let p = ?p; q = ?q
         in (p_x p < 0 \<or> 800 < p_x p \<longrightarrow> 0 \<le> p_x q \<and> p_x q \<le> 800)
          \<and> (p_y p < 0 \<or> 600 < p_y p \<longrightarrow> 0 \<le> p_y q \<and> p_y q \<le> 600)"
      unfolding Let_def by blast
  qed
  have cnt: "length (particles (populate rnd 800 600 canvas (initialSim (Some canvas)))) = 60"
    by (simp add: populate_fields length_createParticles particleCount_div)
  have conn: "set (connections (updateConnections ?s)) =
         (\<lambda>(i, j). \<lparr>c_from = i, c_to = j,
                     c_distance = euclidean (particles ?s ! i) (particles ?s ! j)\<rparr>)
           ` closePairs (particles ?s)"
    "length (connections (updateConnections ?s)) = card (closePairs (particles ?s))"
    by (simp_all add: updateConnections_directScan set_directScan_closePairs length_directScan)
  show ?thesis
    unfolding Let_def
    using cnt len bounds inside [unfolded Let_def] conn by blast
qed

lemma run_frames_particles:
  assumes "canvasRef s = Some c" and "cv_context2d c"
  shows "particles (run (replicate n (Frame env)) s) =
     map ((updateParticle c (mouse s)) ^^ n) (particles s)"
  using assms
proof (induction n arbitrary: s)
  case 0
  then show ?case by simp
next
  case (Suc n)
  have 1: "canvasRef (r_state (animate env s)) = Some c"
    using Suc.prems(1) by (simp add: animate_canvasRef)
  show ?case
    using Suc.IH [OF 1 Suc.prems(2)] Suc.prems
    by (simp add: animate_particles animate_mouse funpow_swap1)
qed

lemma glide:
  assumes "\<not> m_moved m" and "p_vx p \<le> 0" and "0 \<le> p_x p + real n * p_vx p"
    and "p_x p \<le> real (cv_width c)" and "p_vy p = 0" and "0 \<le> p_y p"
    and "p_y p \<le> real (cv_height c)"
  shows "p_x ((updateParticle c m ^^ n) p) = p_x p + real n * p_vx p
    \<and> p_vx ((updateParticle c m ^^ n) p) = p_vx p
    \<and> p_y ((updateParticle c m ^^ n) p) = p_y p
    \<and> p_vy ((updateParticle c m ^^ n) p) = 0"
  using assms(3)
proof (induction n)
  case 0
  then show ?case
    using assms(5) by simp
next
  case (Suc n)
  let ?q = "(updateParticle c m ^^ n) p"
  have step: "real (Suc n) * p_vx p = real n * p_vx p + p_vx p"
    by (simp add: algebra_simps)
  have down: "real (Suc n) * p_vx p \<le> 0"
    using assms(2) by (simp add: mult_nonneg_nonpos)
  from Suc.prems step assms(2) have "0 \<le> p_x p + real n * p_vx p"
    by linarith
  from Suc.IH [OF this]
  have q: "p_x ?q = p_x p + real n * p_vx p" "p_vx ?q = p_vx p" "p_y ?q = p_y p" "p_vy ?q = 0"
    by simp_all
  have in_x: "\<not> (p_x ?q + p_vx ?q < 0 \<or> p_x ?q + p_vx ?q > real (cv_width c))"
    using Suc.prems step down assms(4) unfolding q by linarith
  have in_y: "\<not> (p_y ?q + p_vy ?q < 0 \<or> p_y ?q + p_vy ?q > real (cv_height c))"
    using assms(6,7) unfolding q by simp
  have "p_x (updateParticle c m ?q) = p_x ?q + p_vx ?q"
    "p_vx (updateParticle c m ?q) = p_vx ?q"
    "p_y (updateParticle c m ?q) = p_y ?q + p_vy ?q"
    "p_vy (updateParticle c m ?q) = p_vy ?q"
    using in_x in_y
    by (simp_all add: updateParticle_unmoved [OF assms(1)] reflect_fields advance_fields)
  then show ?case
    unfolding funpow.simps o_apply q step by simp
qed

lemma skimRnd_range: "\<forall>k. 0 \<le> skimRnd k \<and> skimRnd k < 1"
  by (simp add: skimRnd_def)

lemma canvas800_resized: "canvas800\<lparr>cv_width := 800, cv_height := 600\<rparr> = canvas800"
  by (simp add: canvas800_def)

lemma skimStart_fields:
  "canvasRef skimStart = Some canvas800" "\<not> m_moved (mouse skimStart)"
  "particles skimStart =
     map (updateParticle canvas800 (mouse (initialSim (Some canvas800))))
       (createParticles skimRnd 0 canvas800 60)"
proof -
  let ?s = "updateConnections (populate skimRnd 800 600 canvas800 (initialSim (Some canvas800)))"
  have init: "skimStart =
      r_state (animate \<lparr>rand = skimRnd (8 * length (particles
        (populate skimRnd 800 600 canvas800 (initialSim (Some canvas800))))), handle = 1\<rparr> ?s)"
    by (simp add: skimStart_def initializer_def initialSim_def Let_def)
  have c: "canvasRef ?s = Some canvas800"
    by (simp add: updateConnections_fields populate_fields canvas800_resized)
  have m: "mouse ?s = mouse (initialSim (Some canvas800))"
    by (simp add: updateConnections_fields populate_fields)
  have n: "particleCount canvas800 = 60"
    by (simp add: particleCount_div canvas800_fields)
  show "canvasRef skimStart = Some canvas800"
    unfolding init by (simp add: animate_canvasRef c)
  show "\<not> m_moved (mouse skimStart)"
    unfolding init animate_mouse m by (simp add: initialSim_def)
  show "particles skimStart =
     map (updateParticle canvas800 (mouse (initialSim (Some canvas800))))
       (createParticles skimRnd 0 canvas800 60)"
    unfolding init
    by (simp add: animate_particles [OF c] canvas800_fields m updateConnections_fields
        populate_fields canvas800_resized n)
qed

lemma skim_first:
  "p_x (newParticle skimRnd 0 canvas800) = 149.9" "p_vx (newParticle skimRnd 0 canvas800) = - 0.15"
  "p_y (newParticle skimRnd 0 canvas800) = 300" "p_vy (newParticle skimRnd 0 canvas800) = 0"
  by (simp_all add: newParticle_fields skimRnd_def canvas800_fields)

lemma skim_second:
  "p_x (newParticle skimRnd 8 canvas800) = 150.05" "p_vx (newParticle skimRnd 8 canvas800) = - 0.15"
  "p_y (newParticle skimRnd 8 canvas800) = 300" "p_vy (newParticle skimRnd 8 canvas800) = 0"
  by (simp_all add: newParticle_fields skimRnd_def canvas800_fields)

lemma skim_run:
  assumes "i < 60"
  shows "particles (run (replicate n (Frame quietEnv)) skimStart) ! i =
     updateParticle canvas800 (mouse skimStart)
       ((updateParticle canvas800 (mouse skimStart) ^^ n) (newParticle skimRnd (8 * i) canvas800))"
proof -
  have m: "mouse (initialSim (Some canvas800)) = mouse skimStart"
    by (simp add: skimStart_def initializer_def initialSim_def Let_def animate_mouse
        updateConnections_fields populate_fields)
  have "particles (run (replicate n (Frame quietEnv)) skimStart) =
      map (updateParticle canvas800 (mouse skimStart) ^^ n) (particles skimStart)"
    by (rule run_frames_particles) (simp_all add: skimStart_fields canvas800_fields)
  then show ?thesis
    using assms
    by (simp add: skimStart_fields(3) m length_createParticles nth_createParticles
        funpow_swap1)
qed

lemma skim_outside:
  "p_x (particles (run (replicate 999 (Frame quietEnv)) skimStart) ! 0) = - 0.1"
  "p_x (particles (run (replicate 1000 (Frame quietEnv)) skimStart) ! 1) = - 0.1"
proof -
  let ?f = "updateParticle canvas800 (mouse skimStart)"
  have u: "\<not> m_moved (mouse skimStart)"
    by (rule skimStart_fields)
  have a: "p_x ((?f ^^ 999) (newParticle skimRnd 0 canvas800)) = 0.05
      \<and> p_vx ((?f ^^ 999) (newParticle skimRnd 0 canvas800)) = - 0.15"
    using glide [OF u, of "newParticle skimRnd 0 canvas800" 999 canvas800]
    by (simp add: skim_first canvas800_fields)
  have b: "p_x ((?f ^^ 1000) (newParticle skimRnd 8 canvas800)) = 0.05
      \<and> p_vx ((?f ^^ 1000) (newParticle skimRnd 8 canvas800)) = - 0.15"
    using glide [OF u, of "newParticle skimRnd 8 canvas800" 1000 canvas800]
    by (simp add: skim_second canvas800_fields)
  show "p_x (particles (run (replicate 999 (Frame quietEnv)) skimStart) ! 0) = - 0.1"
    using a by (simp add: skim_run updateParticle_position)
  show "p_x (particles (run (replicate 1000 (Frame quietEnv)) skimStart) ! 1) = - 0.1"
    using b by (simp add: skim_run updateParticle_position)
qed

text \<open>
  Claim C7 says that after 1000 steps every particle is within \<open>[0, 800] \<times> [0, 600]\<close>.
  The reflection is tested after the advance and leaves the position where it is. The
  mount effect runs the first \<open>animate\<close> itself: 999 frames later, at the 1000th step,
  the first particle is at \<open>x = -0.1\<close>; and one frame after that, at the 1000th step
  when the one of the mount effect is not counted, the second particle is.
\<close>

theorem drift_800_600_counterexample:
  "(\<forall>k. 0 \<le> skimRnd k \<and> skimRnd k < 1)
   \<and> skimStart = r_state (initializer skimRnd 800 600 1 (initialSim (Some canvas800)))
   \<and> \<not> m_moved (mouse skimStart)
   \<and> p_x (particles (run (replicate 999 (Frame quietEnv)) skimStart) ! 0) = - 0.1
   \<and> p_x (particles (run (replicate 1000 (Frame quietEnv)) skimStart) ! 1) = - 0.1"
proof -
  have "skimStart = r_state (initializer skimRnd 800 600 1 (initialSim (Some canvas800)))"
    by (simp add: skimStart_def)
  with skimStart_fields(2) skimRnd_range skim_outside show ?thesis
    by blast
qed

text \<open>
  The amended claim at the same random source, 999 frames after the mount effect: the
  first particle is outside the window, at \<open>x = -0.1\<close>, by no more than its speed, and
  the next frame brings it back within \<open>[0, 800]\<close>.
\<close>

theorem drift_800_600_witness:
  "(\<forall>k. 0 \<le> skimRnd k \<and> skimRnd k < 1) \<and> cv_context2d canvas800
   \<and> length (particles (populate skimRnd 800 600 canvas800 (initialSim (Some canvas800)))) = 60
   \<and> length (particles (run (map Frame (replicate 999 quietEnv)) skimStart)) = 60
   \<and> p_x (particles (run (map Frame (replicate 999 quietEnv)) skimStart) ! 0) = - 0.1
   \<and> - 0.15 \<le> p_x (particles (run (map Frame (replicate 999 quietEnv)) skimStart) ! 0)
   \<and> - p_x (particles (run (map Frame (replicate 999 quietEnv)) skimStart) ! 0)
       \<le> \<bar>p_vx (particles (run (map Frame (replicate 999 quietEnv)) skimStart) ! 0)\<bar>
   \<and> \<bar>p_vx (particles (run (map Frame (replicate 999 quietEnv)) skimStart) ! 0)\<bar> \<le> 0.15
   \<and> 0 \<le> p_x (particles (r_state (animate quietEnv
              (run (map Frame (replicate 999 quietEnv)) skimStart))) ! 0)
   \<and> p_x (particles (r_state (animate quietEnv
          (run (map Frame (replicate 999 quietEnv)) skimStart))) ! 0) \<le> 800
   \<and> length (connections (updateConnections (run (map Frame (replicate 999 quietEnv)) skimStart))) =
       card (closePairs (particles (run (map Frame (replicate 999 quietEnv)) skimStart)))"
proof -
  let ?s = "run (map Frame (replicate 999 quietEnv)) skimStart"
  note t = drift_800_600 [OF skimRnd_range, where envs = "replicate 999 quietEnv" and h = 1
      and canvas = canvas800 and env = quietEnv, unfolded Let_def, folded skimStart_def]
  have ctx: "cv_context2d canvas800"
    by (simp add: canvas800_fields)
  have out: "p_x (particles ?s ! 0) = - 0.1"
    by (simp add: skim_outside)
  then have neg: "p_x (particles ?s ! 0) < 0"
    by simp
  from t have len: "length (particles ?s) = 60"
    by blast
  then have mem: "particles ?s ! 0 \<in> set (particles ?s)"
    by simp
  from t mem have box: "- 0.15 \<le> p_x (particles ?s ! 0)
      \<and> \<bar>p_vx (particles ?s ! 0)\<bar> \<le> 0.15
      \<and> (p_x (particles ?s ! 0) < 0 \<longrightarrow> - p_x (particles ?s ! 0) \<le> \<bar>p_vx (particles ?s ! 0)\<bar>)"
    by blast
  from t ctx have "\<forall>i < 60. (p_x (particles ?s ! i) < 0 \<or> 800 < p_x (particles ?s ! i) \<longrightarrow>
      0 \<le> p_x (particles (r_state (animate quietEnv ?s)) ! i)
      \<and> p_x (particles (r_state (animate quietEnv ?s)) ! i) \<le> 800)"
    by blast
  with neg have inside: "0 \<le> p_x (particles (r_state (animate quietEnv ?s)) ! 0)
      \<and> p_x (particles (r_state (animate quietEnv ?s)) ! 0) \<le> 800"
    by simp
  from t have cnt: "length (particles (populate skimRnd 800 600 canvas800 (initialSim (Some canvas800)))) = 60"
    and card: "length (connections (updateConnections ?s)) = card (closePairs (particles ?s))"
    by blast+
  from skimRnd_range ctx cnt len out box neg inside card show ?thesis
    by blast
qed

section \<open>The variant computes the same simulation\<close>

text \<open>
  A state of the variant whose particles all have a defined origin, as every particle
  that \<open>handleResize\<close> creates has, stands for a state of the first file, and the
  functions of the two files agree on it: the connection builders store the same
  connections, the particle updates and \<open>animate\<close> give corresponding states, the same
  outcome and, after the call that clears the frame (one call in the variant, two in the
  first file), the same calls on the context; and \<open>handleResize\<close> is the part of the
  mount effect before its \<open>animate\<close>. What is proved of the first file above therefore
  holds of the variant.
\<close>

lemma erase_fields:
  "p_x (erase p) = v_x p" "p_y (erase p) = v_y p" "p_vx (erase p) = v_vx p"
  "p_vy (erase p) = v_vy p" "p_radius (erase p) = v_radius p" "p_color (erase p) = v_color p"
  by (simp_all add: erase_def)

lemma innerLoop_v_erase:
  "i < length ps \<Longrightarrow> innerLoop_v ps i j acc = innerLoop (map erase ps) i j acc"
proof (induction ps i j acc rule: innerLoop_v.induct)
  case (1 ps i j acc)
  show ?case
  proof (cases "j < length ps")
    case True
    have d: "pairDistance (map erase ps) i j =
        sqrt ((v_x (ps ! i) - v_x (ps ! j)) * (v_x (ps ! i) - v_x (ps ! j))
            + (v_y (ps ! i) - v_y (ps ! j)) * (v_y (ps ! i) - v_y (ps ! j)))"
      using True "1.prems" by (simp add: pairDistance_def Let_def erase_fields)
    show ?thesis
      using True "1.IH" [OF True refl refl refl "1.prems"]
      by (subst innerLoop_v.simps, subst innerLoop.simps) (simp add: Let_def d)
  next
    case False
    then show ?thesis
      by (subst innerLoop_v.simps, subst innerLoop.simps) simp
  qed
qed

lemma outerLoop_v_erase: "outerLoop_v ps i acc = outerLoop (map erase ps) i acc"
proof (induction ps i acc rule: outerLoop_v.induct)
  case (1 ps i acc)
  show ?case
  proof (cases "i < length ps")
    case True
    then show ?thesis
      using "1.IH" [OF True]
      by (subst outerLoop_v.simps, subst outerLoop.simps) (simp add: innerLoop_v_erase)
  next
    case False
    then show ?thesis
      by (subst outerLoop_v.simps, subst outerLoop.simps) simp
  qed
qed

lemma advance_v_erase:
  "erase (advance_v p) = advance (erase p)"
  "v_originalX (advance_v p) = v_originalX p" "v_originalY (advance_v p) = v_originalY p"
  by (simp_all add: advance_v_def advance_def erase_def Let_def)

lemma reflect_v_erase:
  "erase (reflect_v c p) = reflect c (erase p)"
  "v_originalX (reflect_v c p) = v_originalX p" "v_originalY (reflect_v c p) = v_originalY p"
  by (simp_all add: reflect_v_def reflect_def erase_def Let_def)

lemma magnetism_v_origin:
  "v_originalX (magnetism_v m p) = v_originalX p" "v_originalY (magnetism_v m p) = v_originalY p"
  by (simp_all add: magnetism_v_def Let_def split: option.splits)

lemma magnetism_v_erase:
  assumes "anchored p"
  shows "erase (magnetism_v m p) = magnetism m (erase p)"
proof -
  from assms obtain ox oy where o: "v_originalX p = Some ox" "v_originalY p = Some oy"
    by (auto simp: anchored_def)
  define d where "d = sqrt ((m_x m - v_x p) * (m_x m - v_x p) + (m_y m - v_y p) * (m_y m - v_y p))"
  show ?thesis
  proof (cases "m_moved m")
    case False
    then show ?thesis
      by (simp add: magnetism_v_def magnetism_def)
  next
    case True
    show ?thesis
    proof (cases "d < 200")
      case False
      then show ?thesis
        using True unfolding d_def
        by (simp add: magnetism_v_def magnetism_def Let_def o erase_def)
    next
      case near: True
      define a where "a = v_vx p + cos (atan2 (m_y m - v_y p) (m_x m - v_x p)) * (0.9 * (1 - d / 200)) * 0.2"
      define b where "b = v_vy p + sin (atan2 (m_y m - v_y p) (m_x m - v_x p)) * (0.9 * (1 - d / 200)) * 0.2"
      define sp where "sp = sqrt (a * a + b * b)"
      have l: "magnetism_v m p =
          (if sp > 3 then p\<lparr>v_vx := a / sp * 3, v_vy := b / sp * 3\<rparr> else p\<lparr>v_vx := a, v_vy := b\<rparr>)"
        unfolding magnetism_v_def Let_def d_def [symmetric]
        using True near by (simp add: a_def b_def sp_def)
      have r: "magnetism m (erase p) =
          (if sp > 3 then (erase p)\<lparr>p_vx := a / sp * 3, p_vy := b / sp * 3\<rparr>
           else (erase p)\<lparr>p_vx := a, p_vy := b\<rparr>)"
        unfolding magnetism_def Let_def erase_fields d_def [symmetric]
        using True near by (simp add: a_def b_def sp_def power2_eq_square erase_fields)
      show ?thesis
        unfolding l r by (simp add: erase_def)
    qed
  qed
qed

lemma updateParticle_v_erase:
  assumes "anchored p"
  shows "erase (updateParticle_v c m p) = updateParticle c m (erase p)"
    and "anchored (updateParticle_v c m p)"
proof -
  have a: "anchored (reflect_v c (advance_v p))"
    using assms by (simp add: anchored_def reflect_v_erase advance_v_erase)
  show "erase (updateParticle_v c m p) = updateParticle c m (erase p)"
    by (simp add: updateParticle_v_def updateParticle_def magnetism_v_erase [OF a]
        reflect_v_erase advance_v_erase)
  show "anchored (updateParticle_v c m p)"
    using a by (simp add: updateParticle_v_def anchored_def magnetism_v_origin)
qed

lemma drawConnections_v_erase: "drawConnections_v ps cs = drawConnections (map erase ps) cs"
  by (induction cs) (simp_all add: Let_def erase_fields)

lemma drawParticles_v_erase: "drawParticles_v ps = drawParticles (map erase ps)"
  by (induction ps) (simp_all add: erase_fields)


lemma map_updateParticle_v_erase:
  assumes "\<forall>p \<in> set ps. anchored p"
  shows "map erase (map (updateParticle_v c m) ps) = map (updateParticle c m) (map erase ps)"
    and "\<forall>p \<in> set (map (updateParticle_v c m) ps). anchored p"
  using assms by (simp_all add: updateParticle_v_erase)

lemma updateConnections_v_abstract:
  "abstract (updateConnections_v s) = updateConnections (abstract s)"
  by (simp add: updateConnections_v_def updateConnections_def abstract_def outerLoop_v_erase)

lemma abstract_handle:
  "abstract (t\<lparr>animationRef := h\<rparr>) = (abstract t)\<lparr>animationFrameRef := Some h\<rparr>"
  by (simp add: abstract_def)

lemma animate_v_abstract:
  assumes "\<forall>p \<in> set (particlesRef s). anchored p"
  shows "abstract (vr_state (animate_v env s)) = r_state (animate env (abstract s))
    \<and> vr_outcome (animate_v env s) = r_outcome (animate env (abstract s))
    \<and> drop 1 (vr_drawn (animate_v env s)) = drop 2 (r_drawn (animate env (abstract s)))"
proof (cases "canvasRef_v s")
  case None
  then show ?thesis
    by (simp add: animate_v_def animate_def abstract_def)
next
  case (Some c)
  show ?thesis
  proof (cases "cv_context2d c")
    case False
    with Some show ?thesis
      by (simp add: animate_v_def animate_def abstract_def)
  next
    case True
    define E where "E = map (erase \<circ> updateParticle_v c (mouseRef s)) (particlesRef s)"
    have E: "map (updateParticle c (mouseRef s) \<circ> erase) (particlesRef s) = E"
      unfolding E_def using assms by (simp add: updateParticle_v_erase)
    obtain lines e1 where dc: "drawConnections E (connectionsRef s) = (lines, e1)"
      by (cases "drawConnections E (connectionsRef s)")
    obtain discs e2 where dp: "drawParticles E = (discs, e2)"
      by (cases "drawParticles E")
    have l: "animate_v env s =
        (case e1 of
           Some e \<Rightarrow>
             \<lparr>vr_state = s\<lparr>particlesRef := map (updateParticle_v c (mouseRef s)) (particlesRef s)\<rparr>,
              vr_drawn = [ClearRect 0 0 (real (cv_width c)) (real (cv_height c)), SetLineWidth 0.3]
                @ lines,
              vr_outcome = Threw e\<rparr>
         | None \<Rightarrow>
             (case e2 of
                Some e \<Rightarrow>
                  \<lparr>vr_state = s\<lparr>particlesRef := map (updateParticle_v c (mouseRef s)) (particlesRef s)\<rparr>,
                   vr_drawn = [ClearRect 0 0 (real (cv_width c)) (real (cv_height c)), SetLineWidth 0.3]
                     @ lines @ discs,
                   vr_outcome = Threw e\<rparr>
              | None \<Rightarrow>
                  \<lparr>vr_state =
                     (if rand env < 0.05
                      then updateConnections_v
                        (s\<lparr>particlesRef := map (updateParticle_v c (mouseRef s)) (particlesRef s)\<rparr>)
                      else s\<lparr>particlesRef := map (updateParticle_v c (mouseRef s)) (particlesRef s)\<rparr>)
                       \<lparr>animationRef := handle env\<rparr>,
                   vr_drawn = [ClearRect 0 0 (real (cv_width c)) (real (cv_height c)), SetLineWidth 0.3]
                     @ lines @ discs,
                   vr_outcome = Rescheduled\<rparr>))"
      using Some True dc dp
      by (simp add: animate_v_def Let_def drawConnections_v_erase drawParticles_v_erase
          E_def [symmetric] split: option.splits)
    have r: "animate env (abstract s) =
        (case e1 of
           Some e \<Rightarrow>
             \<lparr>r_state = (abstract s)\<lparr>particles := E\<rparr>,
              r_drawn = [SetFillStyle (Named ''black''),
                         FillRect 0 0 (real (cv_width c)) (real (cv_height c)), SetLineWidth 0.3]
                @ lines,
              r_outcome = Threw e\<rparr>
         | None \<Rightarrow>
             (case e2 of
                Some e \<Rightarrow>
                  \<lparr>r_state = (abstract s)\<lparr>particles := E\<rparr>,
                   r_drawn = [SetFillStyle (Named ''black''),
                              FillRect 0 0 (real (cv_width c)) (real (cv_height c)), SetLineWidth 0.3]
                     @ lines @ discs,
                   r_outcome = Threw e\<rparr>
              | None \<Rightarrow>
                  \<lparr>r_state =
                     (if rand env < 0.05 then updateConnections ((abstract s)\<lparr>particles := E\<rparr>)
                      else (abstract s)\<lparr>particles := E\<rparr>)
                       \<lparr>animationFrameRef := Some (handle env)\<rparr>,
                   r_drawn = [SetFillStyle (Named ''black''),
                              FillRect 0 0 (real (cv_width c)) (real (cv_height c)), SetLineWidth 0.3]
                     @ lines @ discs,
                   r_outcome = Rescheduled\<rparr>))"
      using Some True dc dp
      by (simp add: animate_def Let_def abstract_def E split: option.splits)
    have v: "abstract (s\<lparr>particlesRef := map (updateParticle_v c (mouseRef s)) (particlesRef s)\<rparr>) =
        (abstract s)\<lparr>particles := E\<rparr>"
      by (simp add: abstract_def E_def)
    have u: "abstract (updateConnections_v
          (s\<lparr>particlesRef := map (updateParticle_v c (mouseRef s)) (particlesRef s)\<rparr>)) =
        updateConnections ((abstract s)\<lparr>particles := E\<rparr>)"
      by (simp only: updateConnections_v_abstract v)
    show ?thesis
      unfolding l r
      by (cases e1; cases e2) (simp_all add: abstract_handle u v)
  qed
qed

lemma animate_v_anchored:
  assumes "\<forall>p \<in> set (particlesRef s). anchored p"
  shows "\<forall>p \<in> set (particlesRef (vr_state (animate_v env s))). anchored p"
  using assms
  by (simp add: animate_v_def Let_def updateConnections_v_def updateParticle_v_erase
      split: option.splits prod.splits)

lemma createLoop_v_step:
  "i < n \<Longrightarrow>
   createLoop_v rnd k W H n i acc =
     createLoop_v rnd (k + 8) W H n (i + 1)
       (acc @ [\<lparr>v_x = rnd k * real W, v_y = rnd (k + 1) * real H,
                 v_vx = (rnd (k + 2) - 0.5) * 0.3, v_vy = (rnd (k + 3) - 0.5) * 0.3,
                 v_radius = rnd (k + 4) * 2.5 + 1, v_color = getRandomColor rnd (k + 5),
                 v_originalX = Some (rnd k * real W), v_originalY = Some (rnd (k + 1) * real H),
                 v_life = 100, v_maxLife = 100\<rparr>])"
  by (subst createLoop_v.simps) (simp add: Let_def)

lemma createLoop_v_done: "\<not> i < n \<Longrightarrow> createLoop_v rnd k W H n i acc = acc"
  by (subst createLoop_v.simps) simp

lemma erase_created:
  "erase \<lparr>v_x = rnd k * real (cv_width c), v_y = rnd (k + 1) * real (cv_height c),
          v_vx = (rnd (k + 2) - 0.5) * 0.3, v_vy = (rnd (k + 3) - 0.5) * 0.3,
          v_radius = rnd (k + 4) * 2.5 + 1, v_color = getRandomColor rnd (k + 5),
          v_originalX = Some (rnd k * real (cv_width c)),
          v_originalY = Some (rnd (k + 1) * real (cv_height c)),
          v_life = 100, v_maxLife = 100\<rparr> = newParticle rnd k c"
  by (simp add: erase_def newParticle_def Let_def)

lemma createLoop_v_erase:
  "i \<le> n \<Longrightarrow>
   map erase (createLoop_v rnd k (cv_width c) (cv_height c) n i acc) =
     map erase acc @ createParticles rnd k c (n - i)"
proof (induction "n - i" arbitrary: i k acc)
  case 0
  then show ?case
    by (simp add: createLoop_v_done)
next
  case (Suc m)
  then have lt: "i < n" and m: "m = n - (i + 1)" and le: "i + 1 \<le> n"
    by simp_all
  have s: "n - i = Suc (n - (i + 1))"
    using lt by simp
  show ?case
    unfolding createLoop_v_step [OF lt] Suc.hyps(1) [OF m le] s
    by (simp only: map_append list.map erase_created createParticles.simps append_assoc
        append_Cons append_Nil)
qed

lemma createLoop_v_anchored:
  "\<forall>p \<in> set acc. anchored p \<Longrightarrow> \<forall>p \<in> set (createLoop_v rnd k W H n i acc). anchored p"
proof (induction "n - i" arbitrary: i k acc)
  case 0
  then show ?case
    by (simp add: createLoop_v_done)
next
  case (Suc m)
  then have lt: "i < n" and m: "m = n - (i + 1)"
    by simp_all
  show ?case
    unfolding createLoop_v_step [OF lt]
    by (rule Suc.hyps(1) [OF m]) (use Suc.prems in \<open>simp add: anchored_def\<close>)
qed

lemma handleResize_v_abstract:
  assumes "canvasRef_v s = Some c"
  shows "abstract (handleResize_v rnd W H s) = updateConnections (populate rnd W H c (abstract s))"
    and "\<forall>p \<in> set (particlesRef (handleResize_v rnd W H s)). anchored p"
proof -
  let ?c = "c\<lparr>cv_width := W, cv_height := H\<rparr>"
  have e: "map erase (createLoop_v rnd 0 W H (particleCount ?c) 0 []) =
      createParticles rnd 0 ?c (particleCount ?c)"
    using createLoop_v_erase [of 0 "particleCount ?c" rnd 0 ?c "[]"] by simp
  show "abstract (handleResize_v rnd W H s) = updateConnections (populate rnd W H c (abstract s))"
    using assms e
    by (simp add: handleResize_v_def Let_def updateConnections_v_abstract [symmetric]
        updateConnections_v_def updateConnections_def populate_def abstract_def particleCount_def
        outerLoop_v_erase)
  show "\<forall>p \<in> set (particlesRef (handleResize_v rnd W H s)). anchored p"
    using assms createLoop_v_anchored [of "[]"]
    by (simp add: handleResize_v_def Let_def updateConnections_v_def)
qed

end
